theory Spec2Isabelle
  imports
    Main
    "HOL-Library.Char_ord"
    "HOL-Library.List_Lexorder"
    "HOL-Library.Option_ord"
    "HOL-Library.AList"
begin

section \<open>sbom2doc: the license and copyright pipeline of \<open>simple_format_generator.py\<close>\<close>

text \<open>
  The development embeds the module \<^verbatim>\<open>sbom2doc/simple_format_generator.py\<close>.
  A Python \<^verbatim>\<open>str\<close> is a \<open>string\<close> (one \<open>char\<close> per character), \<^verbatim>\<open>None\<close> is
  \<open>None\<close> of an option type, a \<^verbatim>\<open>dict\<close> is an association list in insertion order
  (\<open>AList.update\<close> overwrites a key in place and appends a new one at the end, as a Python
  dictionary does), and an exception is the \<open>Inl\<close> side of a sum.  Strings are compared
  lexicographically by character code, which is the order of \<^verbatim>\<open>sorted\<close> on \<^verbatim>\<open>str\<close>.
\<close>

subsection \<open>Exceptions\<close>

datatype error =
    Exception string
  | KeyError string
  | TypeError
  | IndexError
  | AttributeError
  | FileExistsError string

subsection \<open>The truncation helper\<close>

text \<open>
  \<^verbatim>\<open>_ensure_len(text, max_len)\<close>: raises for \<open>max_len < 3\<close>; \<^verbatim>\<open>None\<close> is passed through;
  a longer text is cut to its first \<open>max_len - 3\<close> characters followed by three dots.
\<close>

definition ensure_len :: "string option \<Rightarrow> int \<Rightarrow> error + string option" where
  "ensure_len text max_len =
     (if max_len < 3 then Inl (Exception ''At least 3 min length! Better 10...'')
      else (case text of
              None \<Rightarrow> Inr None
            | Some t \<Rightarrow>
                if int (length t) > max_len
                then Inr (Some (take (nat (max_len - 3)) t @ ''...''))
                else Inr (Some t)))"


subsection \<open>SBOM records\<close>

text \<open>
  A package or file record is a dictionary with optional fields.  An entry of
  \<^verbatim>\<open>licenselist\<close> is a dictionary that may hold a \<^verbatim>\<open>"license"\<close> sub-dictionary, which may
  hold \<^verbatim>\<open>"id"\<close>, \<^verbatim>\<open>"name"\<close> and \<^verbatim>\<open>"text"\<close>.  Field values are strings.
\<close>

record license_obj =
  lic_id :: "string option"
  lic_name :: "string option"
  lic_text :: "string option"

record sbom_record =
  pkg_id :: "string option"
  pkg_name :: "string option"
  pkg_version :: "string option"
  pkg_type :: "string option"
  pkg_supplier :: "string option"
  licenselist :: "license_obj option list option"
  licenseconcluded :: "string option"
  copyrighttext :: "string option"

subsection \<open>External collaborators\<close>

text \<open>
  \<^verbatim>\<open>lib4sbom.license.LicenseScanner\<close>, \<^verbatim>\<open>requests.get(url).json()\<close>, \<^verbatim>\<open>str.upper\<close>,
  Python's rendering of a dictionary inside an f-string, the clock and \<^verbatim>\<open>os.linesep\<close> are
  not part of the module; they are parameters of the model.

  A call into the scanner returns a value or raises; the module calls it without any
  \<^verbatim>\<open>try\<close>, so what it raises propagates.  The HTTP lookup yields a JSON object, of
  which only the \<^verbatim>\<open>licenseText\<close> field is read, or raises: \<^verbatim>\<open>RequestException\<close>, which
  the module catches, or something else (\<^verbatim>\<open>AttributeError\<close> when the body is JSON but not
  an object, for one), which it does not.
\<close>

record scanner =
  scan_find_license_id :: "string \<Rightarrow> error + string"
  scan_license_expression :: "string \<Rightarrow> error + bool"
  DEFAULT_LICENSE :: string

datatype response = RequestException | Raises error | Json_object "string option"

record env =
  license_info :: scanner
  requests_get_json :: "string \<Rightarrow> response"
  str_upper :: "string \<Rightarrow> string"
  str_record :: "sbom_record \<Rightarrow> string"
  now_isoformat :: string
  linesep :: string

subsection \<open>Process state\<close>

text \<open>
  The three module-level dictionaries are used as sets (\<^verbatim>\<open>d[key] = True\<close>); only their
  keys matter, kept in insertion order.  Standard output is the list of \<^verbatim>\<open>print\<close> calls,
  and the working directory maps the names of the files created there to their lines.
\<close>

record world =
  copyright_info_missing_package_name_list :: "string list"
  unknown_license_text_id_list :: "string list"
  license_info_missing_package_id_list :: "string list"
  stdout :: "string list"
  cwd_files :: "(string \<times> string list) list"

definition mark :: "string \<Rightarrow> string list \<Rightarrow> string list" where
  "mark k d = (if k \<in> set d then d else d @ [k])"

definition print_line :: "string \<Rightarrow> world \<Rightarrow> world" where
  "print_line s w = w\<lparr>stdout := stdout w @ [s]\<rparr>"

definition then_do ::
  "(error + 'a) \<times> world \<Rightarrow> ('a \<Rightarrow> world \<Rightarrow> (error + 'b) \<times> world) \<Rightarrow> (error + 'b) \<times> world" where
  "then_do r f = (case r of (Inl e, w) \<Rightarrow> (Inl e, w) | (Inr x, w) \<Rightarrow> f x w)"

subsection \<open>String helpers of the Python runtime\<close>

definition quoted :: "string \<Rightarrow> string" where
  "quoted s = CHR 0x27 # s @ [CHR 0x27]"

definition dquoted :: "string \<Rightarrow> string" where
  "dquoted s = CHR 0x22 # s @ [CHR 0x22]"

fun str_nat :: "nat \<Rightarrow> string" where
  "str_nat n = (if n < 10 then [''0123456789'' ! n]
                else str_nat (n div 10) @ [''0123456789'' ! (n mod 10)])"

declare str_nat.simps [simp del]

definition str_opt :: "string option \<Rightarrow> string" where
  "str_opt t = (case t of None \<Rightarrow> ''None'' | Some s \<Rightarrow> s)"

definition isspace :: "char \<Rightarrow> bool" where
  "isspace c =
     (c \<in> set [CHR 0x09, CHR 0x0A, CHR 0x0B, CHR 0x0C, CHR 0x0D, CHR 0x1C, CHR 0x1D,
                CHR 0x1E, CHR 0x1F, CHR 0x20, CHR 0x85, CHR 0xA0])"

definition strip :: "string \<Rightarrow> string" where
  "strip s = rev (dropWhile isspace (rev (dropWhile isspace s)))"

subsection \<open>The synonym table\<close>

definition license_syns :: "(string \<times> string list) list" where
  "license_syns =
    [(''Apache-2.0'',
       [''https://www.apache.org/licenses/LICENSE-2.0;description=Apache-2.0'',
        ''https://www.apache.org/licenses/LICENSE-2.0.txt'',
        ''http://www.apache.org/licenses/LICENSE-2.0.txt'',
        ''https://www.apache.org/licenses/LICENSE-2.0.html'',
        ''https://www.apache.org/licenses/LICENSE-2.0'',
        ''http://www.apache.org/licenses/LICENSE-2.0.html;'' @ ''description=Apache 2.0 License'',
        ''Apache-2.0 license'',
        dquoted ''Apache License 2.0'' @ '';link=''
          @ dquoted ''http://www.apache.org/licenses/LICENSE-2.0.html'']),
     (''BSD-3-Clause'',
       [''https://opensource.org/licenses/BSD-3-Clause'',
        ''3-Clause BSD License'',
        ''http://www.eclipse.org/org/documents/edl-v10.php'',
        ''BSD 3-Clause'',
        ''BSD 3-Clause License'']),
     (''BSD-2-Clause'',
       [''https://opensource.org/licenses/BSD-2-Clause'',
        ''https://opensource.org/licenses/BSD-2-Clause;description=BSD 2-Clause License'']),
     (''CDDL-1.1'',
       [''https://github.com/javaee/activation/blob/master/LICENSE.txt'']),
     (''ZPL-2.1'',
       [''ZPL 2.1'']),
     (''MIT'',
       [''http://www.opensource.org/licenses/mit-license.php''])]"

text \<open>
  \<^verbatim>\<open>for k, v in license_syns.items(): for kk in v: license_syns_reverse[kk] = k\<close>
\<close>

definition license_syns_reverse :: "(string \<times> string) list" where
  "license_syns_reverse =
     fold (\<lambda>(k, v) d. fold (\<lambda>kk d. AList.update kk k d) v d) license_syns []"

subsection \<open>Record extractors\<close>

fun license_list_simple :: "license_obj option list \<Rightarrow> string list \<Rightarrow> string list" where
  "license_list_simple [] acc = acc"
| "license_list_simple (l # ls) acc =
     (case l of
        None \<Rightarrow> license_list_simple ls acc
      | Some lic \<Rightarrow>
          (case lic_id lic of
             Some i \<Rightarrow> license_list_simple ls (acc @ [i])
           | None \<Rightarrow>
               (case lic_name lic of
                  Some n \<Rightarrow> license_list_simple ls (acc @ [n])
                | None \<Rightarrow>
                    (case lic_text lic of
                       Some t \<Rightarrow> license_list_simple ls (acc @ [t])
                     | None \<Rightarrow> license_list_simple ls acc))))"

definition get_licenses :: "env \<Rightarrow> sbom_record \<Rightarrow> world \<Rightarrow> string list \<times> world" where
  "get_licenses env obj w =
     (let package_name = (case pkg_name obj of Some n \<Rightarrow> n | None \<Rightarrow> ''(package name missing)'');
          simple = (case licenselist obj of
                      None \<Rightarrow> []
                    | Some license_list \<Rightarrow>
                        if length license_list > 0 then license_list_simple license_list [] else [])
      in if length simple > 0 then (simple, w)
         else
           let license = (case licenseconcluded obj of Some l \<Rightarrow> l | None \<Rightarrow> ''NOT KNOWN'')
           in if license = ''NOT KNOWN''
              then ([license],
                    (print_line (''Missing license: '' @ quoted package_name @ '': ''
                                  @ quoted (str_record env obj)) w)
                      \<lparr>license_info_missing_package_id_list :=
                         mark package_name (license_info_missing_package_id_list w)\<rparr>)
              else ([license], w))"

definition get_copyright :: "sbom_record \<Rightarrow> world \<Rightarrow> string \<times> world" where
  "get_copyright obj w =
     (let name = (case pkg_name obj of Some n \<Rightarrow> n | None \<Rightarrow> ''(package name missing)'');
          failed_text = ''Not extracted, please search '' @ name;
          result = (case copyrighttext obj of Some c \<Rightarrow> c | None \<Rightarrow> failed_text)
      in if failed_text = result
         then (result, w\<lparr>copyright_info_missing_package_name_list :=
                           mark name (copyright_info_missing_package_name_list w)\<rparr>)
         else (result, w))"

subsection \<open>The license resolver\<close>

definition dict_getitem :: "(string \<times> 'v) list \<Rightarrow> string \<Rightarrow> error + 'v" where
  "dict_getitem d k = (case map_of d k of None \<Rightarrow> Inl (KeyError k) | Some v \<Rightarrow> Inr v)"

definition find_license_id :: "scanner \<Rightarrow> string \<Rightarrow> error + string" where
  "find_license_id scan value =
     (if value \<in> fst ` set license_syns_reverse
      then dict_getitem license_syns_reverse value
      else
        (case scan_find_license_id scan value of
           Inl e \<Rightarrow> Inl e
         | Inr found \<Rightarrow> if found \<noteq> DEFAULT_LICENSE scan then Inr found else Inr value))"

subsection \<open>Collecting license references and counting them\<close>

text \<open>
  \<^verbatim>\<open>for package in packages: sbom_licenses.extend(_get_licenses(package))\<close>, and the same
  loop over the files.
\<close>

fun collect_licenses ::
  "env \<Rightarrow> sbom_record list \<Rightarrow> string list \<Rightarrow> world \<Rightarrow> string list \<times> world" where
  "collect_licenses env [] sbom_licenses w = (sbom_licenses, w)"
| "collect_licenses env (package # rest) sbom_licenses w =
     (let (licenses, w') = get_licenses env package w
      in collect_licenses env rest (sbom_licenses @ licenses) w')"

text \<open>
  \<^verbatim>\<open>freq = {}; for items in sorted(xs): freq[items] = xs.count(items)\<close>
\<close>

definition count_freq :: "'a::linorder list \<Rightarrow> ('a \<times> nat) list" where
  "count_freq xs =
     fold (\<lambda>items freq. AList.update items (count_list xs items) freq) (sort xs) []"

text \<open>
  \<^verbatim>\<open>sorted([(f, x) for x, f in freq.items()], key=lambda x: x[0], reverse=True)\<close>: a stable
  sort by descending count.
\<close>

definition freq_sorted :: "('a \<times> nat) list \<Rightarrow> (nat \<times> 'a) list" where
  "freq_sorted freq = sort_key (\<lambda>x. - int (fst x)) (map (\<lambda>(license, f). (f, license)) freq)"

fun print_freq :: "(nat \<times> string) list \<Rightarrow> world \<Rightarrow> (error + unit) \<times> world" where
  "print_freq [] w = (Inr (), w)"
| "print_freq ((f, licenses) # rest) w =
     (case ensure_len (Some licenses) 200 of
        Inl e \<Rightarrow> (Inl e, w)
      | Inr t \<Rightarrow> print_freq rest (print_line (str_nat f @ '' times: '' @ str_opt t @ '' END'') w))"

subsection \<open>Grouping by resolved id\<close>

text \<open>A grouped entry is the dictionary \<^verbatim>\<open>{"id": k, "license_text": license_text}\<close>.\<close>

record license_entry =
  entry_id :: string
  license_text :: "string option"

definition is_license_text :: "string \<Rightarrow> bool" where
  "is_license_text k = (length k > 200 \<and> CHR 0x0A \<in> set k)"

text \<open>Lines 187 to 193: classification of the raw value and the expression warning.\<close>

definition expression_warning :: "string \<Rightarrow> string" where
  "expression_warning k = ''WARNING: License expression found, not fully supported: '' @ k"

definition classify :: "scanner \<Rightarrow> string \<Rightarrow> world \<Rightarrow> (error + string option) \<times> world" where
  "classify scan k w =
     (if is_license_text k then (Inr (Some k), w)
      else (case scan_license_expression scan k of
              Inl e \<Rightarrow> (Inl e, w)
            | Inr is_expression \<Rightarrow>
                if is_expression then (Inr None, print_line (expression_warning k) w)
                else (Inr None, w)))"

text \<open>Lines 195 to 199: resolution, which follows for every value.\<close>

definition resolve_key :: "scanner \<Rightarrow> bool \<Rightarrow> string \<Rightarrow> world \<Rightarrow> (error + string) \<times> world" where
  "resolve_key scan debug k w =
     (case find_license_id scan k of
        Inl e \<Rightarrow> (Inl e, w)
      | Inr resolved \<Rightarrow>
          if resolved \<noteq> k
          then (if debug
                then (case ensure_len (Some k) 20 of
                        Inl e \<Rightarrow> (Inl e, w)
                      | Inr t \<Rightarrow>
                          (Inr resolved,
                           print_line (''Resolved '' @ str_opt t @ '' with '' @ resolved) w))
                else (Inr resolved, w))
          else (Inr k, w))"

text \<open>Lines 201 to 220: the entry is stored, an existing text taking precedence.\<close>

definition conflict_message :: "bool \<Rightarrow> string \<Rightarrow> string option \<Rightarrow> string option \<Rightarrow> string" where
  "conflict_message debug k text existing_text =
     (if debug
      then ''Conflict between two different versions ''
           @ ''for license id '' @ k @ ''! ''
           @ ''ONE '' @ str_opt text @ [CHR 0x0A]
           @ ''TWO: '' @ str_opt existing_text @ '' END''
      else ''Conflict between two different versions for ''
           @ ''license id '' @ k @ ''! Check with debug.'')"

definition store_license ::
  "bool \<Rightarrow> string \<Rightarrow> string option \<Rightarrow> (string \<times> license_entry) list \<Rightarrow> world
     \<Rightarrow> (string \<times> license_entry) list \<times> world" where
  "store_license debug k text licenses_by_id w =
     (case map_of licenses_by_id k of
        None \<Rightarrow> (AList.update k \<lparr>entry_id = k, license_text = text\<rparr> licenses_by_id, w)
      | Some existing \<Rightarrow>
          (let existing_text = license_text existing;
               w' = (if text \<noteq> None \<and> existing_text \<noteq> None \<and> text \<noteq> existing_text
                     then print_line (conflict_message debug k text existing_text) w
                     else w);
               text' = (if existing_text \<noteq> None then existing_text else text)
           in (AList.update k \<lparr>entry_id = k, license_text = text'\<rparr> licenses_by_id, w')))"

definition group_license ::
  "scanner \<Rightarrow> bool \<Rightarrow> string \<Rightarrow> (string \<times> license_entry) list \<Rightarrow> world
     \<Rightarrow> (error + (string \<times> license_entry) list) \<times> world" where
  "group_license scan debug k licenses_by_id w =
     (if k = ''NOT KNOWN'' then (Inr licenses_by_id, w)
      else
        then_do (classify scan k w)
          (\<lambda>text w1.
             then_do (resolve_key scan debug k w1)
               (\<lambda>k' w2.
                  let (d, w3) = store_license debug k' text licenses_by_id w2 in (Inr d, w3))))"

fun group_licenses ::
  "scanner \<Rightarrow> bool \<Rightarrow> string list \<Rightarrow> (string \<times> license_entry) list \<Rightarrow> world
     \<Rightarrow> (error + (string \<times> license_entry) list) \<times> world" where
  "group_licenses scan debug [] licenses_by_id w = (Inr licenses_by_id, w)"
| "group_licenses scan debug (k # ks) licenses_by_id w =
     then_do (group_license scan debug k licenses_by_id w) (group_licenses scan debug ks)"

subsection \<open>Enrichment with license texts\<close>

text \<open>Lines 254 to 262: the lookup, of which only \<^verbatim>\<open>RequestException\<close> is caught.\<close>

definition spdx_lookup ::
  "env \<Rightarrow> string \<Rightarrow> license_entry \<Rightarrow> world \<Rightarrow> (error + license_entry \<times> bool) \<times> world" where
  "spdx_lookup env key_stripped value w =
     (case requests_get_json env (''https://spdx.org/licenses/'' @ key_stripped @ ''.json'') of
        Json_object (Some t) \<Rightarrow> (Inr (value\<lparr>license_text := Some t\<rparr>, True), w)
      | Json_object None \<Rightarrow> (Inr (value, False), w)
      | RequestException \<Rightarrow>
          (Inr (value, False),
           print_line (''No license text found in SPDX db for '' @ key_stripped
                        @ '': RequestException'') w)
      | Raises e \<Rightarrow> (Inl e, w))"

text \<open>Lines 264 to 268: the table of additional texts, keyed by the upper-cased id.\<close>

definition additional_text ::
  "env \<Rightarrow> (string \<rightharpoonup> string) option \<Rightarrow> string \<Rightarrow> license_entry \<Rightarrow> world
     \<Rightarrow> license_entry \<times> world" where
  "additional_text env additional_license_texts key_stripped value w =
     (case additional_license_texts of
        None \<Rightarrow> (value, print_line (''No license text found for '' @ key_stripped) w)
      | Some table \<Rightarrow>
          (case table (str_upper env key_stripped) of
             Some t \<Rightarrow> (value\<lparr>license_text := Some t\<rparr>, w)
           | None \<Rightarrow> (value, print_line (''No license text found for '' @ key_stripped) w)))"

definition enrich_license ::
  "env \<Rightarrow> bool \<Rightarrow> (string \<rightharpoonup> string) option \<Rightarrow> string \<Rightarrow> license_entry \<Rightarrow> world
     \<Rightarrow> (error + license_entry) \<times> world" where
  "enrich_license env debug additional_license_texts key value w =
     (if key = ''NOASSERTION'' then (Inr value, w)
      else if license_text value \<noteq> None then (Inr value, w)
      else if length key > 200
      then (Inr value,
            if debug
            then print_line (''Ignore long license key when getting texts, ''
                              @ ''length: '' @ str_nat (length key)) w
            else w)
      else
        (case scan_license_expression (license_info env) key of
           Inl e \<Rightarrow> (Inl e, w)
         | Inr is_expression \<Rightarrow>
             if is_expression
             then (Inr value,
                   if debug
                   then print_line (''Ignore license expression when getting text: '' @ key) w
                   else w)
             else
               let key_stripped = strip key
               in if CHR '' '' \<in> set key_stripped
                  then (Inr value,
                        if debug
                        then print_line (''Ignore license id with space when ''
                                          @ ''querying spdx text: '' @ key_stripped) w
                        else w)
                  else if take 4 key_stripped = ''http'' then (Inr value, w)
                  else
                    then_do (spdx_lookup env key_stripped value w)
                      (\<lambda>(value1, license_done) w1.
                         if \<not> license_done
                         then (let (value2, w2) =
                                     additional_text env additional_license_texts key_stripped
                                       value1 w1
                               in (Inr value2, w2))
                         else (Inr value1, w1))))"

fun enrich_licenses ::
  "env \<Rightarrow> bool \<Rightarrow> (string \<rightharpoonup> string) option \<Rightarrow> (string \<times> license_entry) list \<Rightarrow> world
     \<Rightarrow> (error + (string \<times> license_entry) list) \<times> world" where
  "enrich_licenses env debug additional [] w = (Inr [], w)"
| "enrich_licenses env debug additional ((key, value) # rest) w =
     then_do (enrich_license env debug additional key value w)
       (\<lambda>value' w1.
          then_do (enrich_licenses env debug additional rest w1)
            (\<lambda>rest' w2. (Inr ((key, value') # rest'), w2)))"

subsection \<open>Package sections, license-text appendix, component summary\<close>

text \<open>
  The calls into the document builder are output only and are left out; what the
  sections do to the process state, and where they can raise, is kept.
\<close>

fun find_license_ids :: "scanner \<Rightarrow> string list \<Rightarrow> error + string list" where
  "find_license_ids scan [] = Inr []"
| "find_license_ids scan (l # ls) =
     (case find_license_id scan l of
        Inl e \<Rightarrow> Inl e
      | Inr r \<Rightarrow> (case find_license_ids scan ls of Inl e \<Rightarrow> Inl e | Inr rs \<Rightarrow> Inr (r # rs)))"

record package_acc =
  sbom_components :: "string option list"
  sbom_suppliers :: "string list"
  packages_valid :: bool

definition package_section ::
  "env \<Rightarrow> sbom_record \<Rightarrow> package_acc \<Rightarrow> world \<Rightarrow> (error + package_acc) \<times> world" where
  "package_section env package acc w =
     (let (licenses, w1) = get_licenses env package w
      in case find_license_ids (license_info env) licenses of
           Inl e \<Rightarrow> (Inl e, w1)
         | Inr resolved \<Rightarrow>
             (let (copyright, w2) = get_copyright package w1
              in (Inr \<lparr>sbom_components = sbom_components acc @ [pkg_type package],
                       sbom_suppliers =
                         (case pkg_supplier package of
                            Some supplier \<Rightarrow> sbom_suppliers acc @ [supplier]
                          | None \<Rightarrow> sbom_suppliers acc),
                       packages_valid =
                         (if pkg_id package = None \<or> pkg_name package = None
                             \<or> pkg_version package = None \<or> pkg_supplier package = None
                             \<or> pkg_supplier package = Some ''NOASSERTION''
                          then False else packages_valid acc)\<rparr>,
                  w2)))"

fun package_sections ::
  "env \<Rightarrow> sbom_record list \<Rightarrow> package_acc \<Rightarrow> world \<Rightarrow> (error + package_acc) \<times> world" where
  "package_sections env [] acc w = (Inr acc, w)"
| "package_sections env (package # rest) acc w =
     then_do (package_section env package acc w) (package_sections env rest)"

fun license_texts_section :: "license_entry list \<Rightarrow> world \<Rightarrow> (error + unit) \<times> world" where
  "license_texts_section [] w = (Inr (), w)"
| "license_texts_section (l # ls) w =
     (if entry_id l \<in> set [''UNKNOWN'', ''NOASSERTION'', []]
      then license_texts_section ls w
      else (case ensure_len (Some (entry_id l)) 50 of
              Inl e \<Rightarrow> (Inl e, w)
            | Inr limited_length_id \<Rightarrow>
                (case license_text l of
                   Some t \<Rightarrow> license_texts_section ls w
                 | None \<Rightarrow>
                     license_texts_section ls
                       (w\<lparr>unknown_license_text_id_list :=
                            mark (entry_id l) (unknown_license_text_id_list w)\<rparr>))))"

text \<open>
  \<^verbatim>\<open>sorted(sbom_components)\<close> compares the component types; a comparison that involves
  \<^verbatim>\<open>None\<close> raises \<^verbatim>\<open>TypeError\<close>, and a list of two or more elements compares each of them.
\<close>

definition component_summary :: "string option list \<Rightarrow> error + (nat \<times> string option) list" where
  "component_summary components =
     (if length components \<ge> 2 \<and> None \<in> set components then Inl TypeError
      else Inr (freq_sorted (count_freq components)))"

subsection \<open>Diagnostics writer\<close>

text \<open>
  \<^verbatim>\<open>isoformat().replace(":", "")\<close> cut at the first dot; \<^verbatim>\<open>find\<close> returns \<open>-1\<close> when there
  is none, and the slice \<^verbatim>\<open>[:-1]\<close> then drops the last character.
\<close>

definition timestamp_of :: "string \<Rightarrow> string" where
  "timestamp_of isoformat =
     (let timestamp = filter (\<lambda>c. c \<noteq> CHR '':'') isoformat
      in if CHR ''.'' \<in> set timestamp then takeWhile (\<lambda>c. c \<noteq> CHR ''.'') timestamp
         else butlast timestamp)"

text \<open>\<^verbatim>\<open>open(name, "x")\<close> followed by \<^verbatim>\<open>writelines\<close>: creation fails on an existing file.\<close>

definition create_file :: "string \<Rightarrow> string list \<Rightarrow> world \<Rightarrow> (error + unit) \<times> world" where
  "create_file filename lines w =
     (if filename \<in> fst ` set (cwd_files w) then (Inl (FileExistsError filename), w)
      else (Inr (), w\<lparr>cwd_files := cwd_files w @ [(filename, lines)]\<rparr>))"

definition write_csv ::
  "string \<Rightarrow> string \<Rightarrow> (string \<Rightarrow> string) \<Rightarrow> string list \<Rightarrow> world \<Rightarrow> (error + unit) \<times> world" where
  "write_csv filename header row keys w =
     (if length keys > 0
      then create_file filename (header # map row keys) (print_line (''Writing '' @ filename) w)
      else (Inr (), w))"

definition write_diagnostics :: "env \<Rightarrow> world \<Rightarrow> (error + unit) \<times> world" where
  "write_diagnostics env w =
     (let timestamp = timestamp_of (now_isoformat env);
          row2 = (\<lambda>k. dquoted k @ '','' @ dquoted [] @ linesep env);
          row3 = (\<lambda>k. dquoted k @ '','' @ dquoted [] @ '','' @ dquoted [] @ linesep env)
      in then_do
           (write_csv (''packages_missing_license_info-'' @ timestamp @ ''.csv'')
              (dquoted ''package id'' @ '','' @ dquoted ''license id'' @ linesep env)
              row2 (license_info_missing_package_id_list w) w)
           (\<lambda>_ w1.
              then_do
                (write_csv (''packages_missing_copyright_info-'' @ timestamp @ ''.csv'')
                   (dquoted ''package id'' @ '','' @ dquoted ''copyright info'' @ linesep env)
                   row2 (copyright_info_missing_package_name_list w1) w1)
                (\<lambda>_ w2.
                   write_csv (''license_ids_missing_text-'' @ timestamp @ ''.csv'')
                     (dquoted ''license id'' @ '','' @ dquoted ''original id synonym'' @ '',''
                        @ dquoted ''license text'' @ linesep env)
                     row3 (unknown_license_text_id_list w2) w2)))"

subsection \<open>The document generator\<close>

record args =
  packages :: "sbom_record list"
  files :: "sbom_record list"
  include_license :: bool
  debug :: bool
  additional_license_texts :: "(string \<rightharpoonup> string) option"

text \<open>
  The function returns nothing in Python; the model returns the values of its local
  variables that the properties below are about.  \<open>build_document\<close> is the function up
  to and including \<^verbatim>\<open>sbom_document.publish(outfile)\<close>; \<open>generate_document\<close> adds the
  diagnostics that follow it in debug mode.
\<close>

record report =
  rep_sbom_licenses :: "string list"
  rep_freq :: "(string \<times> nat) list"
  rep_licenses_by_id :: "(string \<times> license_entry) list"
  rep_packages :: package_acc

definition build_document :: "env \<Rightarrow> args \<Rightarrow> world \<Rightarrow> (error + report) \<times> world" where
  "build_document env a w0 =
     (let (licenses_p, w1) = collect_licenses env (packages a) [] w0;
          (sbom_licenses, w2) = collect_licenses env (files a) licenses_p w1;
          freq = count_freq sbom_licenses
      in then_do
           (if debug a
            then print_freq (freq_sorted freq) (print_line ''License information:'' w2)
            else (Inr (), w2))
       (\<lambda>_ w3. then_do
           (group_licenses (license_info env) (debug a) (map fst freq) [] w3)
       (\<lambda>grouped w4. then_do
           (if include_license a
            then enrich_licenses env (debug a) (additional_license_texts a) grouped w4
            else (Inr grouped, w4))
       (\<lambda>licenses_by_id w5. then_do
           (if length (packages a) > 0
            then package_sections env (packages a)
                   \<lparr>sbom_components = [], sbom_suppliers = [], packages_valid = True\<rparr> w5
            else (Inr \<lparr>sbom_components = [], sbom_suppliers = [], packages_valid = True\<rparr>, w5))
       (\<lambda>acc w6. then_do
           (if include_license a
            then license_texts_section (sort_key entry_id (map snd licenses_by_id)) w6
            else (Inr (), w6))
       (\<lambda>_ w7. then_do
           (case component_summary (sbom_components acc) of
              Inl e \<Rightarrow> (Inl e, w7)
            | Inr rows \<Rightarrow> (Inr rows, w7))
       (\<lambda>_ w8.
           (Inr \<lparr>rep_sbom_licenses = sbom_licenses, rep_freq = freq,
                 rep_licenses_by_id = licenses_by_id, rep_packages = acc\<rparr>, w8))))))))"

definition generate_document :: "env \<Rightarrow> args \<Rightarrow> world \<Rightarrow> (error + report) \<times> world" where
  "generate_document env a w0 =
     then_do (build_document env a w0)
       (\<lambda>rep w8. then_do
           (if debug a then write_diagnostics env w8 else (Inr (), w8))
       (\<lambda>_ w9. (Inr rep, w9)))"

subsection \<open>Sample inputs\<close>

text \<open>
  A process that has just started in an empty directory, a stand-in scanner, and an
  environment without network access (every lookup raises \<^verbatim>\<open>RequestException\<close>).
\<close>

definition fresh_world :: world where
  "fresh_world =
     \<lparr>copyright_info_missing_package_name_list = [],
      unknown_license_text_id_list = [],
      license_info_missing_package_id_list = [],
      stdout = [],
      cwd_files = []\<rparr>"

fun contains :: "string \<Rightarrow> string \<Rightarrow> bool" where
  "contains sub [] = (sub = [])"
| "contains sub (c # cs) = (take (length sub) (c # cs) = sub \<or> contains sub cs)"

text \<open>
  The stand-in scanner knows two licenses by name, raises \<^verbatim>\<open>IndexError\<close> on the string
  \<open> with foo\<close>, and takes a string with \<open> OR \<close>, \<open> AND \<close> or \<open> or \<close> in it for an
  expression.
\<close>

definition sample_scanner :: scanner where
  "sample_scanner =
     \<lparr>scan_find_license_id =
        (\<lambda>s. if s = '' with foo'' then Inl IndexError
             else if take 11 s = ''MIT License'' then Inr ''MIT''
             else if s = ''GNU General Public License v2.0 or later'' then Inr ''GPL-2.0-or-later''
             else Inr ''UNKNOWN''),
      scan_license_expression =
        (\<lambda>s. Inr (contains '' OR '' s \<or> contains '' AND '' s \<or> contains '' or '' s)),
      DEFAULT_LICENSE = ''UNKNOWN''\<rparr>"

definition ascii_upper :: "string \<Rightarrow> string" where
  "ascii_upper s =
     map (\<lambda>c. case map_of (zip ''abcdefghijklmnopqrstuvwxyz'' ''ABCDEFGHIJKLMNOPQRSTUVWXYZ'') c of
                 Some u \<Rightarrow> u
               | None \<Rightarrow> c) s"

definition offline_env :: env where
  "offline_env =
     \<lparr>license_info = sample_scanner,
      requests_get_json = (\<lambda>url. RequestException),
      str_upper = ascii_upper,
      str_record = (\<lambda>obj. ''{}''),
      now_isoformat = ''2026-11-04T17:34:12.123456'',
      linesep = [CHR 0x0A]\<rparr>"

definition blank_record :: sbom_record where
  "blank_record =
     \<lparr>pkg_id = None, pkg_name = None, pkg_version = None, pkg_type = None,
      pkg_supplier = None, licenselist = None, licenseconcluded = None,
      copyrighttext = None\<rparr>"

definition apache_args :: args where
  "apache_args =
     \<lparr>packages =
        [blank_record\<lparr>pkg_name := Some ''commons-io'', pkg_type := Some ''library'',
             licenseconcluded := Some ''https://www.apache.org/licenses/LICENSE-2.0''\<rparr>,
         blank_record\<lparr>pkg_name := Some ''commons-cli'', pkg_type := Some ''library'',
             licenseconcluded := Some ''Apache-2.0 license''\<rparr>],
      files = [], include_license = False, debug = False, additional_license_texts = None\<rparr>"

text \<open>What the generator computes for \<open>apache_args\<close> in a fresh process.\<close>

definition apache_report :: report where
  "apache_report =
     \<lparr>rep_sbom_licenses =
        [''https://www.apache.org/licenses/LICENSE-2.0'', ''Apache-2.0 license''],
      rep_freq =
        [(''Apache-2.0 license'', 1), (''https://www.apache.org/licenses/LICENSE-2.0'', 1)],
      rep_licenses_by_id =
        [(''Apache-2.0'', \<lparr>entry_id = ''Apache-2.0'', license_text = None\<rparr>)],
      rep_packages =
        \<lparr>sbom_components = [Some ''library'', Some ''library''], sbom_suppliers = [],
         packages_valid = False\<rparr>\<rparr>"

definition mit_text_one :: string where
  "mit_text_one = ''MIT License'' @ [CHR 0x0A] @ replicate 200 (CHR ''a'')"

definition mit_text_two :: string where
  "mit_text_two = ''MIT License'' @ [CHR 0x0A] @ replicate 200 (CHR ''b'')"

text \<open>The names the extractors use for a record and for its structured licenses.\<close>

definition display_name :: "sbom_record \<Rightarrow> string" where
  "display_name obj = (case pkg_name obj of Some n \<Rightarrow> n | None \<Rightarrow> ''(package name missing)'')"

definition structured_licenses :: "sbom_record \<Rightarrow> string list" where
  "structured_licenses obj =
     (case licenselist obj of None \<Rightarrow> [] | Some license_list \<Rightarrow> license_list_simple license_list [])"

text \<open>
  The text an entry for \<open>r\<close> holds once a value classified as \<open>txt\<close> has been stored
  under \<open>r\<close>: the text already there if there is one, \<open>txt\<close> otherwise.
\<close>

definition stored_text ::
  "(string \<times> license_entry) list \<Rightarrow> string \<Rightarrow> string option \<Rightarrow> string option" where
  "stored_text d r txt =
     (case map_of d r of
        None \<Rightarrow> txt
      | Some e \<Rightarrow> (case license_text e of None \<Rightarrow> txt | Some t \<Rightarrow> Some t))"

definition text_of :: "(string \<times> license_entry) list \<Rightarrow> string \<Rightarrow> string option" where
  "text_of d r = (case map_of d r of None \<Rightarrow> None | Some e \<Rightarrow> license_text e)"

text \<open>
  How the grouped map \<open>d'\<close> relates to the map \<open>d\<close> it grew from while the raw values
  \<open>ks\<close> were stored: keys stay distinct, every entry carries its key as id, a stored
  text is never replaced, and every text is one that was stored before or one of \<open>ks\<close>.
\<close>

definition grouped_from ::
  "string list \<Rightarrow> (string \<times> license_entry) list \<Rightarrow> (string \<times> license_entry) list \<Rightarrow> bool" where
  "grouped_from ks d d' \<longleftrightarrow>
     (distinct (map fst d) \<longrightarrow> distinct (map fst d'))
     \<and> ((\<forall>r e. map_of d r = Some e \<longrightarrow> entry_id e = r)
          \<longrightarrow> (\<forall>r e. map_of d' r = Some e \<longrightarrow> entry_id e = r))
     \<and> (\<forall>r t. text_of d r = Some t \<longrightarrow> text_of d' r = Some t)
     \<and> (\<forall>r t. text_of d' r = Some t \<longrightarrow> text_of d r = Some t \<or> t \<in> set ks)
     \<and> fst ` set d \<subseteq> fst ` set d'"

text \<open>The license references one record contributes, whatever the process state is.\<close>

definition licenses_of :: "sbom_record \<Rightarrow> string list" where
  "licenses_of obj =
     (if structured_licenses obj \<noteq> [] then structured_licenses obj
      else [case licenseconcluded obj of Some l \<Rightarrow> l | None \<Rightarrow> ''NOT KNOWN''])"

section \<open>Properties\<close>

text \<open>
  C8.  For every text and every maximum length \<open>n \<ge> 3\<close> the truncation helper returns a
  string of length at most \<open>n\<close>: the first \<open>n - 3\<close> characters followed by the
  three-character marker \<open>...\<close> when the text is longer than \<open>n\<close>, the text itself
  otherwise.  For every \<open>n < 3\<close> it raises, whatever the text argument is (a string or
  \<^verbatim>\<open>None\<close>).
\<close>

theorem ensure_len_bounded:
  "(3 \<le> n \<longrightarrow>
      (\<exists>r. ensure_len (Some t) n = Inr (Some r)
           \<and> r = (if int (length t) > n then take (nat (n - 3)) t @ ''...'' else t)
           \<and> int (length r) \<le> n))
   \<and> (n < 3 \<longrightarrow> (\<exists>e. ensure_len x n = Inl e))"
  by (auto simp: ensure_len_def)

theorem ensure_len_bounded_witness:
  "ensure_len (Some ''abcdefgh'') 5 = Inr (Some ''ab...'')
   \<and> ensure_len (Some ''abc'') 5 = Inr (Some ''abc'')
   \<and> (\<exists>e. ensure_len None 2 = Inl e)"
  using ensure_len_bounded [of 5 "''abcdefgh''" None]
        ensure_len_bounded [of 5 "''abc''" None]
        ensure_len_bounded [of 2 "''abc''" None]
  by simp


subsection \<open>Record extractors\<close>

lemma get_licenses_structured:
  "structured_licenses obj \<noteq> [] \<Longrightarrow> get_licenses env obj w = (structured_licenses obj, w)"
  by (auto simp: get_licenses_def structured_licenses_def Let_def split: option.splits)

lemma get_licenses_fallback:
  "structured_licenses obj = [] \<Longrightarrow>
   get_licenses env obj w =
     (let license = (case licenseconcluded obj of Some l \<Rightarrow> l | None \<Rightarrow> ''NOT KNOWN'')
      in if license = ''NOT KNOWN''
         then ([license],
               (print_line (''Missing license: '' @ quoted (display_name obj) @ '': ''
                             @ quoted (str_record env obj)) w)
                 \<lparr>license_info_missing_package_id_list :=
                    mark (display_name obj) (license_info_missing_package_id_list w)\<rparr>)
         else ([license], w))"
  by (auto simp: get_licenses_def structured_licenses_def display_name_def Let_def
           split: option.splits)

text \<open>
  C5 (as the code has it).  For every record whose structured license list yields no
  entries and which has no \<^verbatim>\<open>licenseconcluded\<close> field, the license extractor returns
  exactly \<open>[''NOT KNOWN'']\<close> and adds the record's name (the placeholder
  \<open>(package name missing)\<close> when the record has none) to the missing-license diagnostic
  set.  When the structured license list yields at least one entry, that list is returned,
  whatever \<^verbatim>\<open>licenseconcluded\<close> holds, and the process state is left as it was.
\<close>

theorem get_licenses_not_known:
  "(structured_licenses obj = [] \<and> licenseconcluded obj = None \<longrightarrow>
      fst (get_licenses env obj w) = [''NOT KNOWN'']
      \<and> license_info_missing_package_id_list (snd (get_licenses env obj w))
          = mark (display_name obj) (license_info_missing_package_id_list w)
      \<and> display_name obj
          \<in> set (license_info_missing_package_id_list (snd (get_licenses env obj w))))
   \<and> (structured_licenses obj \<noteq> [] \<longrightarrow>
        get_licenses env (obj\<lparr>licenseconcluded := c\<rparr>) w = (structured_licenses obj, w))"
proof (intro conjI impI)
  assume a: "structured_licenses obj = [] \<and> licenseconcluded obj = None"
  then have e: "get_licenses env obj w =
     ([''NOT KNOWN''],
       (print_line (''Missing license: '' @ quoted (display_name obj) @ '': ''
                             @ quoted (str_record env obj)) w)
                 \<lparr>license_info_missing_package_id_list :=
                    mark (display_name obj) (license_info_missing_package_id_list w)\<rparr>)"
    by (simp add: get_licenses_fallback)
  show "fst (get_licenses env obj w) = [''NOT KNOWN'']"
    by (simp add: e)
  show "license_info_missing_package_id_list (snd (get_licenses env obj w))
          = mark (display_name obj) (license_info_missing_package_id_list w)"
    by (simp add: e)
  show "display_name obj
          \<in> set (license_info_missing_package_id_list (snd (get_licenses env obj w)))"
    by (simp add: e mark_def)
next
  assume a: "structured_licenses obj \<noteq> []"
  have "structured_licenses (obj\<lparr>licenseconcluded := c\<rparr>) = structured_licenses obj"
    by (simp add: structured_licenses_def)
  with a show "get_licenses env (obj\<lparr>licenseconcluded := c\<rparr>) w = (structured_licenses obj, w)"
    using get_licenses_structured [of "obj\<lparr>licenseconcluded := c\<rparr>" env w] by simp
qed

theorem get_licenses_not_known_witness:
  "fst (get_licenses offline_env (blank_record\<lparr>pkg_name := Some ''left-pad''\<rparr>) fresh_world)
     = [''NOT KNOWN'']
   \<and> license_info_missing_package_id_list
        (snd (get_licenses offline_env (blank_record\<lparr>pkg_name := Some ''left-pad''\<rparr>) fresh_world))
      = [''left-pad'']
   \<and> get_licenses offline_env
        (blank_record
           \<lparr>licenselist := Some [Some \<lparr>lic_id = Some ''MIT'', lic_name = None, lic_text = None\<rparr>],
            licenseconcluded := Some ''GPL-2.0-only''\<rparr>) fresh_world
      = ([''MIT''], fresh_world)"
  using get_licenses_not_known
          [of "blank_record\<lparr>pkg_name := Some ''left-pad''\<rparr>" offline_env fresh_world]
        get_licenses_not_known
          [of "blank_record
                 \<lparr>licenselist := Some [Some \<lparr>lic_id = Some ''MIT'', lic_name = None, lic_text = None\<rparr>]\<rparr>"
              offline_env fresh_world "Some ''GPL-2.0-only''"]
  by (simp add: structured_licenses_def blank_record_def display_name_def fresh_world_def mark_def)

text \<open>
  The diagnostic set receives the name, not the id: a record with id
  \<open>SPDXRef-Package-1\<close> and name \<open>left-pad\<close> leaves \<open>left-pad\<close> in the set and the id
  out of it.
\<close>

theorem get_licenses_records_name_not_id:
  "pkg_id (blank_record\<lparr>pkg_id := Some ''SPDXRef-Package-1'', pkg_name := Some ''left-pad'',
                         licenselist := Some []\<rparr>) = Some ''SPDXRef-Package-1''
   \<and> fst (get_licenses offline_env
          (blank_record\<lparr>pkg_id := Some ''SPDXRef-Package-1'', pkg_name := Some ''left-pad'',
                        licenselist := Some []\<rparr>) fresh_world) = [''NOT KNOWN'']
   \<and> license_info_missing_package_id_list (snd (get_licenses offline_env
          (blank_record\<lparr>pkg_id := Some ''SPDXRef-Package-1'', pkg_name := Some ''left-pad'',
                        licenselist := Some []\<rparr>) fresh_world)) = [''left-pad'']
   \<and> ''SPDXRef-Package-1''
        \<notin> set (license_info_missing_package_id_list (snd (get_licenses offline_env
          (blank_record\<lparr>pkg_id := Some ''SPDXRef-Package-1'', pkg_name := Some ''left-pad'',
                        licenselist := Some []\<rparr>) fresh_world)))"
  by (simp add: get_licenses_def blank_record_def fresh_world_def offline_env_def mark_def
        print_line_def Let_def)

text \<open>
  C9 (as the code has it).  For every record, the copyright extractor returns the
  \<^verbatim>\<open>copyrighttext\<close> field when it is present, and then leaves the process state as it was
  provided the field differs from the placeholder \<open>Not extracted, please search {name}\<close>
  of that record.  When the field is absent it returns that placeholder and records the
  record's name (\<open>(package name missing)\<close> when it has none) in the missing-copyright
  diagnostic set.
\<close>

theorem get_copyright_cases:
  "(copyrighttext obj = Some c \<longrightarrow>
      fst (get_copyright obj w) = c
      \<and> (c \<noteq> ''Not extracted, please search '' @ display_name obj
           \<longrightarrow> snd (get_copyright obj w) = w))
   \<and> (copyrighttext obj = None \<longrightarrow>
        fst (get_copyright obj w) = ''Not extracted, please search '' @ display_name obj
        \<and> snd (get_copyright obj w)
            = w\<lparr>copyright_info_missing_package_name_list :=
                   mark (display_name obj) (copyright_info_missing_package_name_list w)\<rparr>
        \<and> display_name obj
            \<in> set (copyright_info_missing_package_name_list (snd (get_copyright obj w))))"
  by (auto simp: get_copyright_def display_name_def Let_def mark_def split: option.splits)

theorem get_copyright_cases_witness:
  "get_copyright (blank_record\<lparr>pkg_name := Some ''left-pad'',
                    copyrighttext := Some ''Copyright 2014 Example Inc.''\<rparr>) fresh_world
     = (''Copyright 2014 Example Inc.'', fresh_world)
   \<and> get_copyright (blank_record\<lparr>pkg_name := Some ''left-pad''\<rparr>) fresh_world
     = (''Not extracted, please search left-pad'',
        fresh_world\<lparr>copyright_info_missing_package_name_list := [''left-pad'']\<rparr>)"
  using get_copyright_cases
          [of "blank_record\<lparr>pkg_name := Some ''left-pad'',
                             copyrighttext := Some ''Copyright 2014 Example Inc.''\<rparr>"
              "''Copyright 2014 Example Inc.''" fresh_world]
        get_copyright_cases [of "blank_record\<lparr>pkg_name := Some ''left-pad''\<rparr>" "[]" fresh_world]
  by (simp add: blank_record_def display_name_def fresh_world_def mark_def prod_eq_iff)

text \<open>
  A record whose \<^verbatim>\<open>copyrighttext\<close> is present and reads exactly as its placeholder is
  recorded as missing all the same.
\<close>

theorem get_copyright_present_yet_recorded:
  "copyrighttext (blank_record\<lparr>pkg_name := Some ''left-pad'',
        copyrighttext := Some ''Not extracted, please search left-pad''\<rparr>)
     = Some ''Not extracted, please search left-pad''
   \<and> copyright_info_missing_package_name_list fresh_world = []
   \<and> copyright_info_missing_package_name_list
       (snd (get_copyright
          (blank_record\<lparr>pkg_name := Some ''left-pad'',
                        copyrighttext := Some ''Not extracted, please search left-pad''\<rparr>)
          fresh_world)) = [''left-pad'']"
  by (simp add: get_copyright_def blank_record_def fresh_world_def mark_def Let_def)

subsection \<open>The resolver\<close>

lemma dict_getitem_member:
  "k \<in> fst ` set d \<Longrightarrow> \<exists>v. dict_getitem d k = Inr v \<and> map_of d k = Some v"
  by (cases "map_of d k") (auto simp: dict_getitem_def map_of_eq_None_iff)

lemma license_syns_reverse_eval:
  "license_syns_reverse =
  [(''https://www.apache.org/licenses/LICENSE-2.0;description=Apache-2.0'', ''Apache-2.0''),
   (''https://www.apache.org/licenses/LICENSE-2.0.txt'', ''Apache-2.0''),
   (''http://www.apache.org/licenses/LICENSE-2.0.txt'', ''Apache-2.0''),
   (''https://www.apache.org/licenses/LICENSE-2.0.html'', ''Apache-2.0''),
   (''https://www.apache.org/licenses/LICENSE-2.0'', ''Apache-2.0''),
   (''http://www.apache.org/licenses/LICENSE-2.0.html;description=Apache 2.0 License'',
    ''Apache-2.0''),
   (''Apache-2.0 license'', ''Apache-2.0''),
   (dquoted ''Apache License 2.0'' @ '';link=''
      @ dquoted ''http://www.apache.org/licenses/LICENSE-2.0.html'', ''Apache-2.0''),
   (''https://opensource.org/licenses/BSD-3-Clause'', ''BSD-3-Clause''),
   (''3-Clause BSD License'', ''BSD-3-Clause''),
   (''http://www.eclipse.org/org/documents/edl-v10.php'', ''BSD-3-Clause''),
   (''BSD 3-Clause'', ''BSD-3-Clause''),
   (''BSD 3-Clause License'', ''BSD-3-Clause''),
   (''https://opensource.org/licenses/BSD-2-Clause'', ''BSD-2-Clause''),
   (''https://opensource.org/licenses/BSD-2-Clause;description=BSD 2-Clause License'',
    ''BSD-2-Clause''),
   (''https://github.com/javaee/activation/blob/master/LICENSE.txt'', ''CDDL-1.1''),
   (''ZPL 2.1'', ''ZPL-2.1''),
   (''http://www.opensource.org/licenses/mit-license.php'', ''MIT'')]"
  by (simp add: license_syns_reverse_def license_syns_def dquoted_def)

lemma license_syns_pairs:
  "(c, syns) \<in> set license_syns \<Longrightarrow> s \<in> set syns \<Longrightarrow>
   (s, c) \<in> set (concat (map (\<lambda>(k, v). map (\<lambda>kk. (kk, k)) v) license_syns))"
  by force

lemma license_syns_flattened:
  "concat (map (\<lambda>(k, v). map (\<lambda>kk. (kk, k)) v) license_syns) = license_syns_reverse"
  unfolding license_syns_reverse_eval by (simp add: license_syns_def)

lemma license_syns_reverse_distinct: "distinct (map fst license_syns_reverse)"
  unfolding license_syns_reverse_eval by (simp add: dquoted_def)

lemma license_syns_reverse_complete:
  "(c, syns) \<in> set license_syns \<Longrightarrow> s \<in> set syns \<Longrightarrow> map_of license_syns_reverse s = Some c"
  using license_syns_pairs [of c syns s] license_syns_reverse_distinct
  by (simp add: license_syns_flattened)

lemma find_license_id_synonym:
  assumes "map_of license_syns_reverse v = Some c"
  shows "find_license_id scan v = Inr c"
proof -
  from assms have "v \<in> fst ` set license_syns_reverse"
    by (metis map_of_eq_None_iff option.distinct(1))
  with assms show ?thesis
    using dict_getitem_member [of v license_syns_reverse] by (auto simp: find_license_id_def)
qed

lemma find_license_id_outside:
  "v \<notin> fst ` set license_syns_reverse \<Longrightarrow>
   find_license_id scan v =
     (case scan_find_license_id scan v of
        Inl e \<Rightarrow> Inl e
      | Inr found \<Rightarrow> if found \<noteq> DEFAULT_LICENSE scan then Inr found else Inr v)"
  by (simp add: find_license_id_def)

lemma find_license_id_raises:
  assumes "find_license_id scan v = Inl e"
  shows "v \<notin> fst ` set license_syns_reverse \<and> scan_find_license_id scan v = Inl e"
proof (cases "v \<in> fst ` set license_syns_reverse")
  case True
  then show ?thesis
    using assms dict_getitem_member [of v license_syns_reverse]
    by (auto simp: find_license_id_def)
next
  case False
  then show ?thesis
    using assms by (auto simp: find_license_id_outside split: sum.splits if_splits)
qed

text \<open>
  C2 (as the code has it).  For every raw license string that is a key of the synonym
  table (every synonym listed in \<open>license_syns\<close> is one, mapped to the id it is listed
  under) the resolver returns the mapped canonical id; for every string that is not a key
  and for which the scanner returns its default sentinel, the resolver returns the string
  unchanged.  The resolver raises exactly when the string is not a key of the synonym
  table and the scanner's lookup raises on it, and it then raises what the scanner raised.
\<close>

theorem find_license_id_resolves:
  "(map_of license_syns_reverse v = Some c \<longrightarrow> find_license_id scan v = Inr c)
   \<and> ((c', syns) \<in> set license_syns \<and> v \<in> set syns \<longrightarrow> find_license_id scan v = Inr c')
   \<and> (v \<notin> fst ` set license_syns_reverse
        \<and> scan_find_license_id scan v = Inr (DEFAULT_LICENSE scan)
        \<longrightarrow> find_license_id scan v = Inr v)
   \<and> (find_license_id scan v = Inl e
        \<longleftrightarrow> v \<notin> fst ` set license_syns_reverse \<and> scan_find_license_id scan v = Inl e)"
proof (intro conjI impI)
  show "find_license_id scan v = Inr c" if "map_of license_syns_reverse v = Some c"
    using that by (rule find_license_id_synonym)
  show "find_license_id scan v = Inr c'" if "(c', syns) \<in> set license_syns \<and> v \<in> set syns"
    using that by (auto intro: find_license_id_synonym license_syns_reverse_complete)
  show "find_license_id scan v = Inr v"
    if "v \<notin> fst ` set license_syns_reverse
        \<and> scan_find_license_id scan v = Inr (DEFAULT_LICENSE scan)"
    using that by (simp add: find_license_id_outside)
  show "find_license_id scan v = Inl e
        \<longleftrightarrow> v \<notin> fst ` set license_syns_reverse \<and> scan_find_license_id scan v = Inl e"
  proof
    assume "find_license_id scan v = Inl e"
    then show "v \<notin> fst ` set license_syns_reverse \<and> scan_find_license_id scan v = Inl e"
      by (rule find_license_id_raises)
  next
    assume "v \<notin> fst ` set license_syns_reverse \<and> scan_find_license_id scan v = Inl e"
    then show "find_license_id scan v = Inl e"
      by (simp add: find_license_id_outside)
  qed
qed

theorem find_license_id_resolves_witness:
  "find_license_id sample_scanner ''Apache-2.0 license'' = Inr ''Apache-2.0''
   \<and> find_license_id sample_scanner ''http://www.opensource.org/licenses/mit-license.php''
       = Inr ''MIT''
   \<and> find_license_id sample_scanner ''Beerware'' = Inr ''Beerware''
   \<and> find_license_id sample_scanner ''MIT License'' \<noteq> Inl IndexError"
  using find_license_id_resolves
          [of "''Apache-2.0 license''" "''Apache-2.0''" sample_scanner "''Apache-2.0''" "[]"
              IndexError]
        find_license_id_resolves
          [of "''http://www.opensource.org/licenses/mit-license.php''" "''MIT''" sample_scanner
              "''MIT''" "[''http://www.opensource.org/licenses/mit-license.php'']" IndexError]
        find_license_id_resolves [of "''Beerware''" "[]" sample_scanner "[]" "[]" IndexError]
        find_license_id_resolves [of "''MIT License''" "[]" sample_scanner "[]" "[]" IndexError]
  by (simp add: license_syns_reverse_eval dquoted_def sample_scanner_def license_syns_def)

text \<open>
  The scanner is called without a guard: where it raises, so does the resolver.  The
  stand-in scanner raises \<^verbatim>\<open>IndexError\<close> on \<open> with foo\<close>.
\<close>

theorem find_license_id_propagates_scanner_error:
  "scan_find_license_id sample_scanner '' with foo'' = Inl IndexError
   \<and> find_license_id sample_scanner '' with foo'' = Inl IndexError"
  by (simp add: find_license_id_def license_syns_reverse_eval dquoted_def sample_scanner_def)


subsection \<open>The frequency table\<close>

lemma update_present:
  "k \<in> set ks \<Longrightarrow> AList.update k (f k) (map (\<lambda>k. (k, f k)) ks) = map (\<lambda>k. (k, f k)) ks"
  by (induction ks) auto

lemma update_absent:
  "k \<notin> set ks \<Longrightarrow> AList.update k v (map (\<lambda>k. (k, f k)) ks) = map (\<lambda>k. (k, f k)) ks @ [(k, v)]"
  by (induction ks) auto

lemma fold_update_keys:
  "distinct ks \<Longrightarrow>
   \<exists>ks'. distinct ks' \<and> set ks' = set ks \<union> set ys
        \<and> fold (\<lambda>k d. AList.update k (f k) d) ys (map (\<lambda>k. (k, f k)) ks)
            = map (\<lambda>k. (k, f k)) ks'"
proof (induction ys arbitrary: ks)
  case Nil
  then show ?case by auto
next
  case (Cons y ys)
  show ?case
  proof (cases "y \<in> set ks")
    case True
    with Cons.IH [OF Cons.prems] show ?thesis
      by (auto simp: update_present)
  next
    case False
    then have d: "distinct (ks @ [y])" using Cons.prems by simp
    from Cons.IH [OF d] False show ?thesis
      by (auto simp: update_absent)
  qed
qed

lemma count_freq_shape:
  "\<exists>ks. distinct ks \<and> set ks = set xs \<and> count_freq xs = map (\<lambda>k. (k, count_list xs k)) ks"
  using fold_update_keys [of "[]" "sort xs" "count_list xs"]
  by (simp add: count_freq_def)

lemma count_freq_sum: "sum_list (map snd (count_freq xs)) = length xs"
proof -
  obtain ks where ks: "distinct ks" "set ks = set xs"
    "count_freq xs = map (\<lambda>k. (k, count_list xs k)) ks"
    using count_freq_shape by blast
  have "sum_list (map snd (count_freq xs)) = sum_list (map (count_list xs) ks)"
    by (simp add: ks(3) comp_def)
  also have "\<dots> = sum (count_list xs) (set ks)"
    using ks(1) by (simp add: sum_list_distinct_conv_sum_set)
  also have "\<dots> = length xs"
    by (simp add: ks(2) sum_count_set)
  finally show ?thesis .
qed

lemma count_freq_lookup:
  "map_of (count_freq xs) k = (if k \<in> set xs then Some (count_list xs k) else None)"
proof -
  obtain ks where ks: "distinct ks" "set ks = set xs"
    "count_freq xs = map (\<lambda>k. (k, count_list xs k)) ks"
    using count_freq_shape by blast
  show ?thesis
    by (simp add: ks(3) map_of_map_restrict restrict_map_def ks(2))
qed

lemma count_freq_distinct: "distinct (map fst (count_freq xs))"
  using count_freq_shape [of xs] by (auto simp: comp_def)

lemma count_freq_keys: "set (map fst (count_freq xs)) = set xs"
  using count_freq_shape [of xs] by (force simp: comp_def)

lemma get_licenses_fst: "fst (get_licenses env obj w) = licenses_of obj"
  by (auto simp: get_licenses_def licenses_of_def structured_licenses_def Let_def
           split: option.splits)

lemma collect_licenses_fst:
  "fst (collect_licenses env rs acc w) = acc @ concat (map licenses_of rs)"
proof (induction rs arbitrary: acc w)
  case Nil
  then show ?case by simp
next
  case (Cons r rs)
  show ?case
    using Cons.IH [of "acc @ licenses_of r" "snd (get_licenses env r w)"]
          get_licenses_fst [of env r w]
    by (simp add: case_prod_beta)
qed

lemma then_do_Inr:
  "then_do r f = (Inr y, w') \<Longrightarrow> \<exists>x w1. r = (Inr x, w1) \<and> f x w1 = (Inr y, w')"
  by (auto simp: then_do_def split: prod.splits sum.splits)

lemma then_do_InrE:
  assumes "then_do r f = (Inr y, w')"
  obtains x w1 where "f x w1 = (Inr y, w')"
  using assms by (auto simp: then_do_def split: prod.splits sum.splits)

lemma build_document_report:
  assumes "build_document env a w = (Inr rep, w')"
  shows "rep_sbom_licenses rep = concat (map licenses_of (packages a @ files a))
         \<and> rep_freq rep = count_freq (rep_sbom_licenses rep)"
proof -
  have c: "fst (collect_licenses env (files a) (fst (collect_licenses env (packages a) [] w))
            (snd (collect_licenses env (packages a) [] w)))
           = concat (map licenses_of (packages a @ files a))"
    by (simp add: collect_licenses_fst)
  from assms show ?thesis
    unfolding build_document_def Let_def case_prod_beta c
    apply (elim then_do_InrE)
    apply (simp only: prod.inject sum.inject)
    apply (erule conjE)
    apply (drule sym [of _ rep])
    apply simp
    done
qed

lemma generate_document_built:
  assumes "generate_document env a w = (Inr rep, w')"
  shows "\<exists>w8. build_document env a w = (Inr rep, w8)"
proof -
  from assms [unfolded generate_document_def]
  have "\<exists>x w8. build_document env a w = (Inr x, w8)
          \<and> then_do (if debug a then write_diagnostics env w8 else (Inr (), w8))
                (\<lambda>_ w9. (Inr x, w9)) = (Inr rep, w')"
    by (rule then_do_Inr)
  then obtain x w8 where b: "build_document env a w = (Inr x, w8)"
    and t: "then_do (if debug a then write_diagnostics env w8 else (Inr (), w8))
              (\<lambda>_ w9. (Inr x, w9)) = (Inr rep, w')"
    by (elim exE conjE)
  from t have "x = rep"
    by (auto dest!: then_do_Inr)
  with b show ?thesis by (intro exI [of _ w8]) simp
qed


subsection \<open>Grouping\<close>

lemma world_stdout_nil: "w\<lparr>stdout := stdout w @ []\<rparr> = w"
  by simp

lemma print_line_eq: "print_line s w = w\<lparr>stdout := stdout w @ [s]\<rparr>"
  by (simp add: print_line_def)

lemma ensure_len_ok: "3 \<le> n \<Longrightarrow> \<exists>t. ensure_len (Some s) n = Inr (Some t)"
  by (simp add: ensure_len_def)

lemma classify_text: "is_license_text k \<Longrightarrow> classify scan k w = (Inr (Some k), w)"
  by (simp add: classify_def)

lemma classify_other:
  "\<not> is_license_text k \<Longrightarrow> scan_license_expression scan k = Inr b \<Longrightarrow>
   classify scan k w = (Inr None, w\<lparr>stdout := stdout w @ (if b then [expression_warning k] else [])\<rparr>)"
  by (simp add: classify_def print_line_eq)

lemma classify_raises:
  "\<not> is_license_text k \<Longrightarrow> scan_license_expression scan k = Inl e \<Longrightarrow>
   classify scan k w = (Inl e, w)"
  by (simp add: classify_def)

lemma classify_Inr:
  assumes "classify scan k w = (Inr tx0, w')"
  shows "tx0 = (if is_license_text k then Some k else None)
         \<and> (is_license_text k \<or> (\<exists>b. scan_license_expression scan k = Inr b))"
  using assms by (auto simp: classify_def split: if_splits sum.splits)

lemma resolve_key_eq:
  assumes "find_license_id scan k = Inr r"
  shows "\<exists>out. resolve_key scan dbg k w = (Inr r, w\<lparr>stdout := stdout w @ out\<rparr>)"
proof (cases "r \<noteq> k \<and> dbg")
  case True
  obtain t where t: "ensure_len (Some k) 20 = Inr (Some t)"
    using ensure_len_ok [of 20 k] by auto
  show ?thesis
    using assms True t by (auto simp: resolve_key_def print_line_eq)
next
  case False
  have "resolve_key scan dbg k w = (Inr r, w\<lparr>stdout := stdout w @ []\<rparr>)"
    using assms False by (auto simp: resolve_key_def)
  then show ?thesis by (rule exI)
qed

lemma resolve_key_raises:
  "find_license_id scan k = Inl e \<Longrightarrow> resolve_key scan dbg k w = (Inl e, w)"
  by (simp add: resolve_key_def)

lemma resolve_key_Inr:
  assumes "resolve_key scan dbg k w = (Inr r, w')"
  shows "find_license_id scan k = Inr r"
proof (cases "find_license_id scan k")
  case (Inl e)
  then show ?thesis using assms by (simp add: resolve_key_raises)
next
  case (Inr r')
  from resolve_key_eq [OF Inr, of dbg w] assms show ?thesis
    using Inr by auto
qed

lemma store_license_eq:
  "store_license dbg r tx0 d w =
     (AList.update r \<lparr>entry_id = r, license_text = stored_text d r tx0\<rparr> d,
      w\<lparr>stdout := stdout w
           @ (if \<exists>t. text_of d r = Some t \<and> tx0 \<noteq> None \<and> tx0 \<noteq> Some t
              then [conflict_message dbg r tx0 (text_of d r)] else [])\<rparr>)"
  by (auto simp: store_license_def stored_text_def text_of_def Let_def print_line_eq
           split: option.splits)


lemma group_license_eq:
  assumes "k \<noteq> ''NOT KNOWN''"
    and cls: "classify scan k w = (Inr tx0, w\<lparr>stdout := stdout w @ A\<rparr>)"
    and r: "find_license_id scan k = Inr r"
  shows "\<exists>res. group_license scan dbg k d w =
     (Inr (AList.update r \<lparr>entry_id = r, license_text = stored_text d r tx0\<rparr> d),
      w\<lparr>stdout := stdout w @ A @ res
           @ (if \<exists>t. text_of d r = Some t \<and> tx0 \<noteq> None \<and> tx0 \<noteq> Some t
              then [conflict_message dbg r tx0 (text_of d r)] else [])\<rparr>)"
proof -
  let ?w1 = "w\<lparr>stdout := stdout w @ A\<rparr>"
  obtain res where res: "resolve_key scan dbg k ?w1 = (Inr r, ?w1\<lparr>stdout := stdout ?w1 @ res\<rparr>)"
    using resolve_key_eq [OF r] ..
  show ?thesis
    using assms(1) cls res
    by (intro exI [of _ res]) (simp add: group_license_def then_do_def store_license_eq)
qed

lemma group_license_classify_raises:
  "k \<noteq> ''NOT KNOWN'' \<Longrightarrow> classify scan k w = (Inl e, w1)
   \<Longrightarrow> group_license scan dbg k d w = (Inl e, w1)"
  by (simp add: group_license_def then_do_def)

lemma group_license_resolve_raises:
  "k \<noteq> ''NOT KNOWN'' \<Longrightarrow> classify scan k w = (Inr tx0, w1) \<Longrightarrow> find_license_id scan k = Inl e
   \<Longrightarrow> group_license scan dbg k d w = (Inl e, w1)"
  by (simp add: group_license_def then_do_def resolve_key_raises)

lemma classify_cases:
  "(\<exists>e. classify scan k w = (Inl e, w)
         \<and> \<not> is_license_text k \<and> scan_license_expression scan k = Inl e)
   \<or> (\<exists>A. classify scan k w
              = (Inr (if is_license_text k then Some k else None), w\<lparr>stdout := stdout w @ A\<rparr>)
          \<and> (is_license_text k \<or> (\<exists>b. scan_license_expression scan k = Inr b))
          \<and> A = (if \<not> is_license_text k \<and> scan_license_expression scan k = Inr True
                 then [expression_warning k] else []))"
proof (cases "is_license_text k")
  case True
  then show ?thesis by (simp add: classify_text)
next
  case False
  show ?thesis
  proof (cases "scan_license_expression scan k")
    case (Inl e)
    with False show ?thesis by (simp add: classify_raises)
  next
    case (Inr b)
    with False show ?thesis by (simp add: classify_other)
  qed
qed

lemma group_license_Inr:
  assumes grp: "group_license scan dbg k d w = (Inr d', w')" and nk: "k \<noteq> ''NOT KNOWN''"
  shows "\<exists>r. find_license_id scan k = Inr r
           \<and> (is_license_text k \<or> (\<exists>b. scan_license_expression scan k = Inr b))
           \<and> d' = AList.update r
                 \<lparr>entry_id = r,
                  license_text = stored_text d r (if is_license_text k then Some k else None)\<rparr> d"
proof -
  let ?tx = "if is_license_text k then Some k else None"
  from classify_cases [of scan k w]
  obtain A where cls: "classify scan k w = (Inr ?tx, w\<lparr>stdout := stdout w @ A\<rparr>)"
    and ok: "is_license_text k \<or> (\<exists>b. scan_license_expression scan k = Inr b)"
    using grp nk by (auto simp: group_license_classify_raises)
  show ?thesis
  proof (cases "find_license_id scan k")
    case (Inl e)
    from group_license_resolve_raises [OF nk cls Inl, of dbg d] grp show ?thesis by simp
  next
    case (Inr r)
    from group_license_eq [OF nk cls Inr, of dbg d] grp
    have "d' = AList.update r \<lparr>entry_id = r, license_text = stored_text d r ?tx\<rparr> d"
      by auto
    with Inr ok show ?thesis by (intro exI [of _ r]) simp
  qed
qed

lemma text_of_update:
  "text_of (AList.update r \<lparr>entry_id = r, license_text = x\<rparr> d) r'
     = (if r' = r then x else text_of d r')"
  by (simp add: text_of_def update_conv')

lemma stored_text_keeps: "text_of d r = Some t \<Longrightarrow> stored_text d r tx0 = Some t"
  by (auto simp: text_of_def stored_text_def split: option.splits)

lemma stored_text_origin:
  "stored_text d r tx0 = Some t \<Longrightarrow> text_of d r = Some t \<or> tx0 = Some t"
  by (auto simp: text_of_def stored_text_def split: option.splits)

lemma grouped_from_refl: "grouped_from [] d d"
  by (simp add: grouped_from_def)

lemma grouped_from_distinct:
  "grouped_from ks d d' \<Longrightarrow> distinct (map fst d) \<Longrightarrow> distinct (map fst d')"
  unfolding grouped_from_def by (elim conjE) (erule mp)

lemma grouped_from_ids:
  "grouped_from ks d d' \<Longrightarrow> \<forall>r e. map_of d r = Some e \<longrightarrow> entry_id e = r
     \<Longrightarrow> \<forall>r e. map_of d' r = Some e \<longrightarrow> entry_id e = r"
  unfolding grouped_from_def by (elim conjE) (erule mp)

lemma grouped_from_keeps:
  "grouped_from ks d d' \<Longrightarrow> text_of d r = Some t \<Longrightarrow> text_of d' r = Some t"
  unfolding grouped_from_def by (elim conjE) (erule allE [of _ r], erule allE [of _ t], erule mp)

lemma grouped_from_origin:
  "grouped_from ks d d' \<Longrightarrow> text_of d' r = Some t \<Longrightarrow> text_of d r = Some t \<or> t \<in> set ks"
  unfolding grouped_from_def by (elim conjE) fast

lemma grouped_from_keys:
  "grouped_from ks d d' \<Longrightarrow> fst ` set d \<subseteq> fst ` set d'"
  unfolding grouped_from_def by (elim conjE)

lemma grouped_from_trans:
  assumes a: "grouped_from [k] d d1" and b: "grouped_from ks d1 d2"
  shows "grouped_from (k # ks) d d2"
proof -
  have 1: "distinct (map fst d) \<longrightarrow> distinct (map fst d2)"
    using grouped_from_distinct [OF a] grouped_from_distinct [OF b] by blast
  have 2: "(\<forall>r e. map_of d r = Some e \<longrightarrow> entry_id e = r)
             \<longrightarrow> (\<forall>r e. map_of d2 r = Some e \<longrightarrow> entry_id e = r)"
  proof (rule impI)
    assume h: "\<forall>r e. map_of d r = Some e \<longrightarrow> entry_id e = r"
    show "\<forall>r e. map_of d2 r = Some e \<longrightarrow> entry_id e = r"
      by (rule grouped_from_ids [OF b], rule grouped_from_ids [OF a], rule h)
  qed
  have 3: "\<forall>r t. text_of d r = Some t \<longrightarrow> text_of d2 r = Some t"
    using grouped_from_keeps [OF a] grouped_from_keeps [OF b] by blast
  have 4: "\<forall>r t. text_of d2 r = Some t \<longrightarrow> text_of d r = Some t \<or> t \<in> set (k # ks)"
  proof (intro allI impI)
    fix r t assume "text_of d2 r = Some t"
    then have "text_of d1 r = Some t \<or> t \<in> set ks"
      by (rule grouped_from_origin [OF b])
    then show "text_of d r = Some t \<or> t \<in> set (k # ks)"
      using grouped_from_origin [OF a, of r t] by auto
  qed
  have 5: "fst ` set d \<subseteq> fst ` set d2"
    using grouped_from_keys [OF a] grouped_from_keys [OF b] by (rule subset_trans)
  show ?thesis
    unfolding grouped_from_def using 1 2 3 4 5 by (intro conjI)
qed

lemma grouped_from_skip: "grouped_from [k] d d"
  by (simp add: grouped_from_def)

lemma grouped_from_update:
  "grouped_from [k] d
     (AList.update r \<lparr>entry_id = r,
        license_text = stored_text d r (if is_license_text k then Some k else None)\<rparr> d)"
  (is "grouped_from _ _ ?d")
proof -
  have 1: "distinct (map fst d) \<longrightarrow> distinct (map fst ?d)"
    by (simp add: distinct_update)
  have 2: "(\<forall>r e. map_of d r = Some e \<longrightarrow> entry_id e = r) \<longrightarrow> (\<forall>r e. map_of ?d r = Some e \<longrightarrow> entry_id e = r)"
    by (auto simp: update_conv' split: if_splits)
  have 3: "\<forall>r t. text_of d r = Some t \<longrightarrow> text_of ?d r = Some t"
    by (auto simp: text_of_update stored_text_keeps)
  have 4: "\<forall>r t. text_of ?d r = Some t \<longrightarrow> text_of d r = Some t \<or> t \<in> set [k]"
    by (auto simp: text_of_update dest!: stored_text_origin split: if_splits)
  have 5: "fst ` set d \<subseteq> fst ` set ?d"
    by (auto simp: dom_update)
  show ?thesis
    unfolding grouped_from_def using 1 2 3 4 5 by (intro conjI)
qed

lemma group_license_step:
  assumes "group_license scan dbg k d w = (Inr d', w')"
  shows "grouped_from [k] d d'"
proof (cases "k = ''NOT KNOWN''")
  case True
  with assms have "d' = d" by (simp add: group_license_def)
  then show ?thesis by (simp add: grouped_from_skip)
next
  case False
  from group_license_Inr [OF assms False] obtain r where
    "d' = AList.update r
            \<lparr>entry_id = r,
             license_text = stored_text d r (if is_license_text k then Some k else None)\<rparr> d"
    by auto
  then show ?thesis by (simp add: grouped_from_update)
qed

lemma group_licenses_Inr:
  "group_licenses scan dbg ks d w = (Inr d', w') \<Longrightarrow> grouped_from ks d d'"
proof (induction ks arbitrary: d w)
  case Nil
  then show ?case by (simp add: grouped_from_refl)
next
  case (Cons k ks)
  obtain res w1 where g: "group_license scan dbg k d w = (res, w1)"
    by (cases "group_license scan dbg k d w")
  show ?case
  proof (cases res)
    case (Inl e)
    with g Cons.prems show ?thesis by (simp add: then_do_def)
  next
    case (Inr d1)
    with g Cons.prems have "group_licenses scan dbg ks d1 w1 = (Inr d', w')"
      by (simp add: then_do_def)
    then have tl: "grouped_from ks d1 d'" by (rule Cons.IH)
    have hd: "grouped_from [k] d d1"
      using g Inr by (intro group_license_step [of scan dbg k d w d1 w1]) simp
    show ?thesis using hd tl by (rule grouped_from_trans)
  qed
qed


subsection \<open>Two packages under Apache-2.0 synonyms\<close>

lemma count_freq_apache:
  "count_freq [''https://www.apache.org/licenses/LICENSE-2.0'', ''Apache-2.0 license'']
   = [(''Apache-2.0 license'', 1), (''https://www.apache.org/licenses/LICENSE-2.0'', 1)]"
  by (simp add: count_freq_def)

lemma find_license_id_apache:
  "find_license_id scan ''Apache-2.0 license'' = Inr ''Apache-2.0''"
  "find_license_id scan ''https://www.apache.org/licenses/LICENSE-2.0'' = Inr ''Apache-2.0''"
  by (rule find_license_id_synonym, simp add: license_syns_reverse_eval dquoted_def)+

lemma apache_collect:
  "collect_licenses env (packages apache_args) [] w
   = ([''https://www.apache.org/licenses/LICENSE-2.0'', ''Apache-2.0 license''], w)"
  by (simp add: apache_args_def blank_record_def get_licenses_def Let_def)

lemma apache_files: "collect_licenses env (files apache_args) acc w = (acc, w)"
  by (simp add: apache_args_def)

lemma apache_flags:
  "debug apache_args = False" "include_license apache_args = False"
  "packages apache_args \<noteq> []"
  by (simp_all add: apache_args_def)

lemma apache_group:
  "group_licenses sample_scanner False
      [''Apache-2.0 license'', ''https://www.apache.org/licenses/LICENSE-2.0''] [] w
   = (Inr [(''Apache-2.0'', \<lparr>entry_id = ''Apache-2.0'', license_text = None\<rparr>)], w)"
  by (simp add: group_license_def classify_def is_license_text_def resolve_key_def
        find_license_id_apache store_license_def then_do_def Let_def sample_scanner_def)

lemma apache_sections:
  "package_sections offline_env (packages apache_args)
     \<lparr>sbom_components = [], sbom_suppliers = [], packages_valid = True\<rparr> fresh_world
   = (Inr \<lparr>sbom_components = [Some ''library'', Some ''library''], sbom_suppliers = [],
           packages_valid = False\<rparr>,
      fresh_world\<lparr>copyright_info_missing_package_name_list := [''commons-io'', ''commons-cli'']\<rparr>)"
  by (simp add: apache_args_def blank_record_def package_section_def get_licenses_def
        get_copyright_def Let_def find_license_id_apache then_do_def fresh_world_def mark_def)

lemma apache_components:
  "component_summary [Some ''library'', Some ''library''] = Inr [(2, Some ''library'')]"
  by (simp add: component_summary_def freq_sorted_def count_freq_def)

lemma offline_scanner: "license_info offline_env = sample_scanner"
  by (simp add: offline_env_def)

lemma apache_build:
  "build_document offline_env apache_args fresh_world =
   (Inr \<lparr>rep_sbom_licenses =
           [''https://www.apache.org/licenses/LICENSE-2.0'', ''Apache-2.0 license''],
         rep_freq =
           [(''Apache-2.0 license'', 1), (''https://www.apache.org/licenses/LICENSE-2.0'', 1)],
         rep_licenses_by_id =
           [(''Apache-2.0'', \<lparr>entry_id = ''Apache-2.0'', license_text = None\<rparr>)],
         rep_packages =
           \<lparr>sbom_components = [Some ''library'', Some ''library''], sbom_suppliers = [],
            packages_valid = False\<rparr>\<rparr>,
    fresh_world\<lparr>copyright_info_missing_package_name_list := [''commons-io'', ''commons-cli'']\<rparr>)"
  by (simp add: build_document_def apache_collect apache_files count_freq_apache apache_flags
        apache_group apache_sections apache_components then_do_def offline_scanner
        del: group_licenses.simps)

lemma apache_run:
  "generate_document offline_env apache_args fresh_world =
   (Inr \<lparr>rep_sbom_licenses =
           [''https://www.apache.org/licenses/LICENSE-2.0'', ''Apache-2.0 license''],
         rep_freq =
           [(''Apache-2.0 license'', 1), (''https://www.apache.org/licenses/LICENSE-2.0'', 1)],
         rep_licenses_by_id =
           [(''Apache-2.0'', \<lparr>entry_id = ''Apache-2.0'', license_text = None\<rparr>)],
         rep_packages =
           \<lparr>sbom_components = [Some ''library'', Some ''library''], sbom_suppliers = [],
            packages_valid = False\<rparr>\<rparr>,
    fresh_world\<lparr>copyright_info_missing_package_name_list := [''commons-io'', ''commons-cli'']\<rparr>)"
  by (simp add: generate_document_def apache_build apache_flags then_do_def)


lemma then_do_cases [consumes 1, case_names Returns]:
  assumes "then_do r f = (Inr y, w')"
    and "\<And>x w1. r = (Inr x, w1) \<Longrightarrow> f x w1 = (Inr y, w') \<Longrightarrow> P"
  shows P
proof -
  obtain res w1 where r: "r = (res, w1)" by (cases r)
  show ?thesis
  proof (cases res)
    case (Inl e)
    with r assms(1) show ?thesis by (simp add: then_do_def)
  next
    case (Inr x)
    with r assms(1) have "f x w1 = (Inr y, w')" by (simp add: then_do_def)
    with r Inr show ?thesis by (intro assms(2) [of x w1]) simp_all
  qed
qed

lemma build_document_stages:
  assumes b: "build_document env a w = (Inr rep, w')"
  shows "\<exists>w3 grouped w4 w5 w6.
      group_licenses (license_info env) (debug a) (map fst (rep_freq rep)) [] w3
        = (Inr grouped, w4)
    \<and> (if include_license a
        then enrich_licenses env (debug a) (additional_license_texts a) grouped w4
        else (Inr grouped, w4)) = (Inr (rep_licenses_by_id rep), w5)
    \<and> (if length (packages a) > 0
        then package_sections env (packages a)
               \<lparr>sbom_components = [], sbom_suppliers = [], packages_valid = True\<rparr> w5
        else (Inr \<lparr>sbom_components = [], sbom_suppliers = [], packages_valid = True\<rparr>, w5))
       = (Inr (rep_packages rep), w6)
    \<and> (if include_license a
        then license_texts_section (sort_key entry_id (map snd (rep_licenses_by_id rep))) w6
        else (Inr (), w6)) = (Inr (), w')"
proof -
  note t1 = b [unfolded build_document_def Let_def case_prod_beta]
  from t1 show ?thesis
  proof (cases rule: then_do_cases)
    case (Returns u1 w3)
    from Returns(2) show ?thesis
    proof (cases rule: then_do_cases)
      case (Returns grouped w4)
      note e2 = Returns(1)
      from Returns(2) show ?thesis
      proof (cases rule: then_do_cases)
        case (Returns lbi w5)
        note e3 = Returns(1)
        from Returns(2) show ?thesis
        proof (cases rule: then_do_cases)
          case (Returns acc w6)
          note e4 = Returns(1)
          from Returns(2) show ?thesis
          proof (cases rule: then_do_cases)
            case (Returns u2 w7)
            note e5 = Returns(1)
            from Returns(2) show ?thesis
            proof (cases rule: then_do_cases)
              case (Returns rows w8)
              note e6 = Returns(1) and fin = Returns(2)
              from e6 have w87: "w8 = w7" by (auto split: sum.splits)
              from fin have rep: "rep_freq rep = count_freq (fst (collect_licenses env (files a)
                    (fst (collect_licenses env (packages a) [] w))
                    (snd (collect_licenses env (packages a) [] w))))"
                and lbi: "rep_licenses_by_id rep = lbi" and acc: "rep_packages rep = acc"
                and w8: "w' = w8"
                by auto
              show ?thesis
                apply (rule exI [of _ w3], rule exI [of _ grouped], rule exI [of _ w4],
                       rule exI [of _ w5], rule exI [of _ w6])
                apply (intro conjI)
                   apply (simp only: rep e2)
                  apply (simp only: lbi e3)
                 apply (simp only: acc e4)
                apply (simp only: lbi w8 w87 e5)
                apply simp
                done
            qed
          qed
        qed
      qed
    qed
  qed
qed


lemma apache_run_report:
  "generate_document offline_env apache_args fresh_world =
   (Inr apache_report,
    fresh_world\<lparr>copyright_info_missing_package_name_list := [''commons-io'', ''commons-cli'']\<rparr>)"
  by (simp add: apache_run apache_report_def)

text \<open>
  C6.  For every sequence of collected license references, the counts of the frequency
  table sum to the length of the sequence, every value of the sequence is a key exactly
  once, and its count is the number of its occurrences in the sequence.  The collected
  sequence is the concatenation of what the extractor yields for every package and then
  every file (\<open>licenses_of\<close>), and where the generator returns, its frequency table is
  the table of that sequence.
\<close>

theorem frequency_table_counts:
  "sum_list (map snd (count_freq xs)) = length xs
   \<and> map_of (count_freq xs) k = (if k \<in> set xs then Some (count_list xs k) else None)
   \<and> distinct (map fst (count_freq xs))
   \<and> fst (collect_licenses env (files a) (fst (collect_licenses env (packages a) [] w)) w1)
       = concat (map licenses_of (packages a @ files a))
   \<and> (generate_document env a w = (Inr rep, w') \<longrightarrow>
        rep_sbom_licenses rep = concat (map licenses_of (packages a @ files a))
        \<and> rep_freq rep = count_freq (rep_sbom_licenses rep)
        \<and> sum_list (map snd (rep_freq rep)) = length (rep_sbom_licenses rep))"
proof (intro conjI impI)
  show "sum_list (map snd (count_freq xs)) = length xs"
    by (rule count_freq_sum)
  show "map_of (count_freq xs) k = (if k \<in> set xs then Some (count_list xs k) else None)"
    by (rule count_freq_lookup)
  show "distinct (map fst (count_freq xs))"
    by (rule count_freq_distinct)
  show "fst (collect_licenses env (files a) (fst (collect_licenses env (packages a) [] w)) w1)
       = concat (map licenses_of (packages a @ files a))"
    by (simp add: collect_licenses_fst)
next
  assume g: "generate_document env a w = (Inr rep, w')"
  then obtain w8 where "build_document env a w = (Inr rep, w8)"
    using generate_document_built by blast
  then have r: "rep_sbom_licenses rep = concat (map licenses_of (packages a @ files a))
         \<and> rep_freq rep = count_freq (rep_sbom_licenses rep)"
    by (rule build_document_report)
  from r show "rep_sbom_licenses rep = concat (map licenses_of (packages a @ files a))" ..
  from r show "rep_freq rep = count_freq (rep_sbom_licenses rep)" ..
  from r show "sum_list (map snd (rep_freq rep)) = length (rep_sbom_licenses rep)"
    by (simp add: count_freq_sum)
qed

theorem frequency_table_counts_witness:
  "generate_document offline_env apache_args fresh_world =
     (Inr apache_report,
      fresh_world\<lparr>copyright_info_missing_package_name_list := [''commons-io'', ''commons-cli'']\<rparr>)
   \<and> rep_freq apache_report = count_freq (rep_sbom_licenses apache_report)
   \<and> sum_list (map snd (rep_freq apache_report)) = length (rep_sbom_licenses apache_report)"
proof -
  have run: "generate_document offline_env apache_args fresh_world =
     (Inr apache_report,
      fresh_world\<lparr>copyright_info_missing_package_name_list := [''commons-io'', ''commons-cli'']\<rparr>)"
    by (rule apache_run_report)
  from frequency_table_counts
          [of "[]" "[]" offline_env apache_args fresh_world fresh_world apache_report
              "fresh_world\<lparr>copyright_info_missing_package_name_list :=
                             [''commons-io'', ''commons-cli'']\<rparr>"]
  have "generate_document offline_env apache_args fresh_world =
     (Inr apache_report,
      fresh_world\<lparr>copyright_info_missing_package_name_list := [''commons-io'', ''commons-cli'']\<rparr>)
     \<longrightarrow> rep_sbom_licenses apache_report
           = concat (map licenses_of (packages apache_args @ files apache_args))
         \<and> rep_freq apache_report = count_freq (rep_sbom_licenses apache_report)
         \<and> sum_list (map snd (rep_freq apache_report)) = length (rep_sbom_licenses apache_report)"
    by (elim conjE)
  from this run
  have res: "rep_sbom_licenses apache_report
           = concat (map licenses_of (packages apache_args @ files apache_args))
         \<and> rep_freq apache_report = count_freq (rep_sbom_licenses apache_report)
         \<and> sum_list (map snd (rep_freq apache_report)) = length (rep_sbom_licenses apache_report)"
    by (rule mp)
  show ?thesis
    by (intro conjI, rule run, rule res [THEN conjunct2, THEN conjunct1],
        rule res [THEN conjunct2, THEN conjunct2])
qed


lemma enrich_licenses_keys:
  "enrich_licenses env dbg add d w = (Inr d', w') \<Longrightarrow> map fst d' = map fst d"
proof (induction d arbitrary: d' w w')
  case Nil
  then show ?case by simp
next
  case (Cons kv rest)
  obtain key val where kv: "kv = (key, val)" by (cases kv)
  from Cons.prems [unfolded kv enrich_licenses.simps] show ?case
  proof (cases rule: then_do_cases)
    case (Returns val' w1)
    from Returns(2) show ?thesis
    proof (cases rule: then_do_cases)
      case (Returns rest' w2)
      from Returns(1) have "map fst rest' = map fst rest" by (rule Cons.IH)
      with Returns(2) kv show ?thesis by auto
    qed
  qed
qed

lemma apache_group_Inr:
  assumes "group_licenses scan dbg
      [''Apache-2.0 license'', ''https://www.apache.org/licenses/LICENSE-2.0''] [] w = (Inr d, w')"
  shows "d = [(''Apache-2.0'', \<lparr>entry_id = ''Apache-2.0'', license_text = None\<rparr>)]"
proof -
  from assms [unfolded group_licenses.simps] show ?thesis
  proof (cases rule: then_do_cases)
    case (Returns d1 w1)
    from group_license_Inr [OF Returns(1)]
    have d1: "d1 = [(''Apache-2.0'', \<lparr>entry_id = ''Apache-2.0'', license_text = None\<rparr>)]"
      by (auto simp: find_license_id_apache is_license_text_def stored_text_def)
    from Returns(2) show ?thesis
    proof (cases rule: then_do_cases)
      case (Returns d2 w2)
      from group_license_Inr [OF Returns(1)]
      have "d2 = [(''Apache-2.0'', \<lparr>entry_id = ''Apache-2.0'', license_text = None\<rparr>)]"
        by (auto simp: find_license_id_apache is_license_text_def stored_text_def d1)
      with Returns(2) show ?thesis by simp
    qed
  qed
qed

lemma apache_group_returns:
  assumes "scan_license_expression scan ''Apache-2.0 license'' = Inr b1"
    and "scan_license_expression scan ''https://www.apache.org/licenses/LICENSE-2.0'' = Inr b2"
  shows "fst (group_licenses scan dbg
      [''Apache-2.0 license'', ''https://www.apache.org/licenses/LICENSE-2.0''] [] w)
     = Inr [(''Apache-2.0'', \<lparr>entry_id = ''Apache-2.0'', license_text = None\<rparr>)]"
proof -
  have n1: "\<not> is_license_text ''Apache-2.0 license''"
    and n2: "\<not> is_license_text ''https://www.apache.org/licenses/LICENSE-2.0''"
    by (simp_all add: is_license_text_def)
  from group_license_eq [OF _ classify_other [OF n1 assms(1)] find_license_id_apache(1), of dbg "[]" w]
  obtain res1 where g1: "group_license scan dbg ''Apache-2.0 license'' [] w
      = (Inr [(''Apache-2.0'', \<lparr>entry_id = ''Apache-2.0'', license_text = None\<rparr>)],
         w\<lparr>stdout := stdout w @ (if b1 then [expression_warning ''Apache-2.0 license''] else []) @ res1\<rparr>)"
    by (auto simp: stored_text_def text_of_def)
  let ?w1 = "w\<lparr>stdout := stdout w @ (if b1 then [expression_warning ''Apache-2.0 license''] else []) @ res1\<rparr>"
  let ?d1 = "[(''Apache-2.0'', \<lparr>entry_id = ''Apache-2.0'', license_text = None\<rparr>)]"
  from group_license_eq [OF _ classify_other [OF n2 assms(2)] find_license_id_apache(2), of dbg ?d1 ?w1]
  obtain res2 w2 where g2: "group_license scan dbg ''https://www.apache.org/licenses/LICENSE-2.0'' ?d1 ?w1
      = (Inr ?d1, w2)"
    by (auto simp: stored_text_def text_of_def)
  show ?thesis
    by (simp add: g1 g2 then_do_def del: group_licenses.simps add: group_licenses.simps(2) group_licenses.simps(1))
qed


lemma licenses_by_id_keys:
  assumes "build_document env a w = (Inr rep, w')"
  shows "\<exists>w3 grouped w4.
      group_licenses (license_info env) (debug a) (map fst (rep_freq rep)) [] w3
        = (Inr grouped, w4)
      \<and> map fst (rep_licenses_by_id rep) = map fst grouped"
proof -
  from build_document_stages [OF assms]
  obtain w3 grouped w4 w5 where
    g: "group_licenses (license_info env) (debug a) (map fst (rep_freq rep)) [] w3
        = (Inr grouped, w4)"
    and e: "(if include_license a
        then enrich_licenses env (debug a) (additional_license_texts a) grouped w4
        else (Inr grouped, w4)) = (Inr (rep_licenses_by_id rep), w5)"
    by (elim exE conjE)
  have "map fst (rep_licenses_by_id rep) = map fst grouped"
  proof (cases "include_license a")
    case True
    with e show ?thesis by (auto dest: enrich_licenses_keys)
  next
    case False
    with e show ?thesis by simp
  qed
  with g show ?thesis
    by (intro exI [of _ w3] exI [of _ grouped] exI [of _ w4] conjI)
qed

text \<open>
  C7 (as the code has it).  For an input of two packages whose raw license values are
  \<open>https://www.apache.org/licenses/LICENSE-2.0\<close> and \<open>Apache-2.0 license\<close>, both
  values resolve to \<open>Apache-2.0\<close> and the aggregation produces a single grouped entry,
  with key \<open>Apache-2.0\<close>.  The frequency table is keyed by the raw values: it holds the
  two values with count 1 each, two references in all, and no entry for \<open>Apache-2.0\<close>.
\<close>

theorem apache_synonyms_one_entry:
  "find_license_id scan ''https://www.apache.org/licenses/LICENSE-2.0'' = Inr ''Apache-2.0''
   \<and> find_license_id scan ''Apache-2.0 license'' = Inr ''Apache-2.0''
   \<and> (scan_license_expression scan ''Apache-2.0 license'' = Inr b1
        \<and> scan_license_expression scan ''https://www.apache.org/licenses/LICENSE-2.0'' = Inr b2
        \<longrightarrow> fst (group_licenses scan dbg
               (map fst (count_freq
                  [''https://www.apache.org/licenses/LICENSE-2.0'', ''Apache-2.0 license'']))
               [] w0)
            = Inr [(''Apache-2.0'', \<lparr>entry_id = ''Apache-2.0'', license_text = None\<rparr>)])
   \<and> (licenses_of p1 = [''https://www.apache.org/licenses/LICENSE-2.0'']
        \<and> licenses_of p2 = [''Apache-2.0 license'']
        \<and> packages a = [p1, p2] \<and> files a = []
        \<and> generate_document env a w = (Inr rep, w')
        \<longrightarrow> map fst (rep_licenses_by_id rep) = [''Apache-2.0'']
            \<and> rep_freq rep
                = [(''Apache-2.0 license'', 1),
                   (''https://www.apache.org/licenses/LICENSE-2.0'', 1)]
            \<and> sum_list (map snd (rep_freq rep)) = 2
            \<and> map_of (rep_freq rep) ''Apache-2.0'' = None)"
proof (intro conjI impI)
  show "find_license_id scan ''https://www.apache.org/licenses/LICENSE-2.0'' = Inr ''Apache-2.0''"
    by (rule find_license_id_apache)
  show "find_license_id scan ''Apache-2.0 license'' = Inr ''Apache-2.0''"
    by (rule find_license_id_apache)
  show "fst (group_licenses scan dbg
               (map fst (count_freq
                  [''https://www.apache.org/licenses/LICENSE-2.0'', ''Apache-2.0 license'']))
               [] w0)
            = Inr [(''Apache-2.0'', \<lparr>entry_id = ''Apache-2.0'', license_text = None\<rparr>)]"
    if "scan_license_expression scan ''Apache-2.0 license'' = Inr b1
        \<and> scan_license_expression scan ''https://www.apache.org/licenses/LICENSE-2.0'' = Inr b2"
    using that apache_group_returns [of scan b1 b2 dbg w0]
    by (simp add: count_freq_apache)
next
  assume h: "licenses_of p1 = [''https://www.apache.org/licenses/LICENSE-2.0'']
        \<and> licenses_of p2 = [''Apache-2.0 license'']
        \<and> packages a = [p1, p2] \<and> files a = []
        \<and> generate_document env a w = (Inr rep, w')"
  then obtain w8 where b: "build_document env a w = (Inr rep, w8)"
    using generate_document_built by blast
  from build_document_report [OF b] h
  have f: "rep_freq rep
                = [(''Apache-2.0 license'', 1),
                   (''https://www.apache.org/licenses/LICENSE-2.0'', 1)]"
    by (simp add: count_freq_apache)
  from licenses_by_id_keys [OF b]
  obtain w3 grouped w4 where
    g: "group_licenses (license_info env) (debug a) (map fst (rep_freq rep)) [] w3
        = (Inr grouped, w4)"
    and k: "map fst (rep_licenses_by_id rep) = map fst grouped"
    by (elim exE conjE)
  from g have "grouped = [(''Apache-2.0'', \<lparr>entry_id = ''Apache-2.0'', license_text = None\<rparr>)]"
    unfolding f by (intro apache_group_Inr [of "license_info env" "debug a" w3 grouped w4]) simp
  with k show "map fst (rep_licenses_by_id rep) = [''Apache-2.0'']" by simp
  show "rep_freq rep
                = [(''Apache-2.0 license'', 1),
                   (''https://www.apache.org/licenses/LICENSE-2.0'', 1)]" by (rule f)
  show "sum_list (map snd (rep_freq rep)) = 2" by (simp add: f)
  show "map_of (rep_freq rep) ''Apache-2.0'' = None" by (simp add: f)
qed


theorem apache_synonyms_one_entry_witness:
  "fst (group_licenses sample_scanner False
          (map fst (count_freq
             [''https://www.apache.org/licenses/LICENSE-2.0'', ''Apache-2.0 license'']))
          [] fresh_world)
     = Inr [(''Apache-2.0'', \<lparr>entry_id = ''Apache-2.0'', license_text = None\<rparr>)]
   \<and> map fst (rep_licenses_by_id apache_report) = [''Apache-2.0'']
   \<and> sum_list (map snd (rep_freq apache_report)) = 2"
proof -
  let ?p1 = "blank_record\<lparr>pkg_name := Some ''commons-io'', pkg_type := Some ''library'',
             licenseconcluded := Some ''https://www.apache.org/licenses/LICENSE-2.0''\<rparr>"
  let ?p2 = "blank_record\<lparr>pkg_name := Some ''commons-cli'', pkg_type := Some ''library'',
             licenseconcluded := Some ''Apache-2.0 license''\<rparr>"
  let ?W = "fresh_world\<lparr>copyright_info_missing_package_name_list :=
                          [''commons-io'', ''commons-cli'']\<rparr>"
  note T = apache_synonyms_one_entry
             [where scan = sample_scanner and ?b1.0 = False and ?b2.0 = False and dbg = False
                and ?w0.0 = fresh_world and ?p1.0 = ?p1 and ?p2.0 = ?p2 and a = apache_args
                and env = offline_env and w = fresh_world and rep = apache_report and w' = ?W]
  have h1: "scan_license_expression sample_scanner ''Apache-2.0 license'' = Inr False
        \<and> scan_license_expression sample_scanner ''https://www.apache.org/licenses/LICENSE-2.0''
            = Inr False"
    by (simp add: sample_scanner_def)
  have h2: "licenses_of ?p1 = [''https://www.apache.org/licenses/LICENSE-2.0'']
        \<and> licenses_of ?p2 = [''Apache-2.0 license'']
        \<and> packages apache_args = [?p1, ?p2] \<and> files apache_args = []
        \<and> generate_document offline_env apache_args fresh_world = (Inr apache_report, ?W)"
  proof (intro conjI)
    show "licenses_of ?p1 = [''https://www.apache.org/licenses/LICENSE-2.0'']"
      by (simp add: licenses_of_def structured_licenses_def blank_record_def)
    show "licenses_of ?p2 = [''Apache-2.0 license'']"
      by (simp add: licenses_of_def structured_licenses_def blank_record_def)
    show "packages apache_args = [?p1, ?p2]"
      by (simp add: apache_args_def)
    show "files apache_args = []"
      by (simp add: apache_args_def)
    show "generate_document offline_env apache_args fresh_world = (Inr apache_report, ?W)"
      by (rule apache_run_report)
  qed
  from T [THEN conjunct2, THEN conjunct2, THEN conjunct1] h1
  have c1: "fst (group_licenses sample_scanner False
          (map fst (count_freq
             [''https://www.apache.org/licenses/LICENSE-2.0'', ''Apache-2.0 license'']))
          [] fresh_world)
     = Inr [(''Apache-2.0'', \<lparr>entry_id = ''Apache-2.0'', license_text = None\<rparr>)]"
    by (rule mp)
  from T [THEN conjunct2, THEN conjunct2, THEN conjunct2] h2
  have c2: "map fst (rep_licenses_by_id apache_report) = [''Apache-2.0'']
            \<and> rep_freq apache_report
                = [(''Apache-2.0 license'', 1),
                   (''https://www.apache.org/licenses/LICENSE-2.0'', 1)]
            \<and> sum_list (map snd (rep_freq apache_report)) = 2
            \<and> map_of (rep_freq apache_report) ''Apache-2.0'' = None"
    by (rule mp)
  show ?thesis
    by (intro conjI, rule c1, rule c2 [THEN conjunct1],
        rule c2 [THEN conjunct2, THEN conjunct2, THEN conjunct1])
qed

text \<open>
  No frequency of 2 is stored anywhere: in a fresh process the two packages give a
  frequency table with the two raw values at count 1 each and without the key
  \<open>Apache-2.0\<close>, next to the single grouped entry.
\<close>

theorem apache_frequency_per_raw_value:
  "generate_document offline_env apache_args fresh_world =
     (Inr apache_report,
      fresh_world\<lparr>copyright_info_missing_package_name_list := [''commons-io'', ''commons-cli'']\<rparr>)
   \<and> map fst (rep_licenses_by_id apache_report) = [''Apache-2.0'']
   \<and> rep_freq apache_report
       = [(''Apache-2.0 license'', 1), (''https://www.apache.org/licenses/LICENSE-2.0'', 1)]
   \<and> map_of (rep_freq apache_report) ''Apache-2.0'' = None
   \<and> 2 \<notin> snd ` set (rep_freq apache_report)"
  by (simp add: apache_run_report) (simp add: apache_report_def)


subsection \<open>License expressions\<close>






end
